theory Spec2Isabelle
  imports Complex_Main "HOL-Library.Multiset"
begin

section \<open>Peak fitting of MCA spectra: the cut extractor and the two-stage fitter\<close>

text \<open>
  The development follows \<^verbatim>\<open>analysis/fitting.py\<close>.  An array element is a float64 in
  the program; here a finite float is the real number it denotes.  The threshold of the cut
  extractor, the product of the peak value and the threshold level, is rounded to float64 as
  the program rounds it, since the set of positions above the threshold depends on the
  rounding.  The other arithmetic of the module (the bounds of a cut, the initial guess of a
  fit, the products with the nonlinearities) is exact here.  The values that only a solver
  can produce (infinities, NaN) appear in the covariance matrices.
  Python integers are \<^typ>\<open>int\<close>, array positions that numpy computes itself are
  \<^typ>\<open>nat\<close>.
\<close>

subsection \<open>Exceptions\<close>

datatype exn =
    ValueError string
  | IndexError string
  | TypeError string
  | ZeroDivisionError string
  | SolverError string

subsection \<open>The numpy and Python primitives that the module uses\<close>

text \<open>\<^verbatim>\<open>round(x)\<close> of Python 3 rounds to the nearest integer, a tie to the even one.\<close>

definition py_round :: "real \<Rightarrow> int" where
  "py_round x =
     (let f = \<lfloor>x\<rfloor>; d = x - of_int f
      in if d < 1 / 2 then f else if 1 / 2 < d then f + 1 else if even f then f else f + 1)"

subsection \<open>float64 values and the rounding of a product\<close>

text \<open>A float64 is a finite number, an infinity or NaN.\<close>

datatype fl = Finite real | PInf | NInf | NaN

text \<open>The number of binary digits of a natural number.\<close>

fun bit_length :: "nat \<Rightarrow> nat" where
  "bit_length n = (if n = 0 then 0 else Suc (bit_length (n div 2)))"

declare bit_length.simps [simp del]

definition pow2 :: "int \<Rightarrow> real" where
  "pow2 e = (if 0 \<le> e then 2 ^ nat e else 1 / 2 ^ nat (- e))"

text \<open>The binary exponent of a positive real \<open>x\<close>: the \<open>e\<close> with \<open>2\<^sup>e \<le> x < 2\<^sup>e\<^sup>+\<^sup>1\<close>.\<close>

definition exponent :: "real \<Rightarrow> int" where
  "exponent x =
     (if 1 \<le> x then int (bit_length (nat \<lfloor>x\<rfloor>)) - 1
      else - int (bit_length (nat (\<lceil>1 / x\<rceil> - 1))))"

text \<open>
  The spacing of the float64 values around \<open>x\<close>: 52 fraction bits below the exponent of
  \<open>x\<close>, and the fixed spacing \<open>2\<^sup>-\<^sup>1\<^sup>0\<^sup>7\<^sup>4\<close> of the subnormal numbers below \<open>2\<^sup>-\<^sup>1\<^sup>0\<^sup>2\<^sup>2\<close>.
\<close>

definition ulp64 :: "real \<Rightarrow> real" where
  "ulp64 x = (if \<bar>x\<bar> < pow2 (- 1022) then pow2 (- 1074) else pow2 (exponent \<bar>x\<bar> - 52))"

text \<open>
  Rounding of an exact result to float64: to the nearest multiple of the spacing, a tie to
  the even one; a result of magnitude \<open>2\<^sup>1\<^sup>0\<^sup>2\<^sup>4\<close> or more overflows to an infinity.
\<close>

definition round64 :: "real \<Rightarrow> real" where
  "round64 x = of_int (py_round (x / ulp64 x)) * ulp64 x"

definition to_float64 :: "real \<Rightarrow> fl" where
  "to_float64 x =
     (let r = round64 x
      in if pow2 1024 \<le> r then PInf else if r \<le> - pow2 1024 then NInf else Finite r)"

text \<open>\<^verbatim>\<open>x * y\<close> of two finite floats.\<close>

definition mul64 :: "real \<Rightarrow> real \<Rightarrow> fl" where
  "mul64 x y = to_float64 (x * y)"

text \<open>\<^verbatim>\<open>x > t\<close> for a finite float \<open>x\<close> and a float \<open>t\<close>.\<close>

definition exceeds :: "real \<Rightarrow> fl \<Rightarrow> bool" where
  "exceeds x t = (case t of Finite r \<Rightarrow> r < x | PInf \<Rightarrow> False | NInf \<Rightarrow> True | NaN \<Rightarrow> False)"

text \<open>Position of the first element that satisfies a predicate (the length if there is none).\<close>

primrec first_index :: "('a \<Rightarrow> bool) \<Rightarrow> 'a list \<Rightarrow> nat" where
  "first_index P [] = 0"
| "first_index P (x # xs) = (if P x then 0 else Suc (first_index P xs))"

text \<open>\<^verbatim>\<open>np.max(data)\<close> and \<^verbatim>\<open>np.argmax(data)\<close>: both raise on an empty array;
  \<^verbatim>\<open>argmax\<close> returns the first position of the maximum.\<close>

definition np_max :: "real list \<Rightarrow> exn + real" where
  "np_max xs =
     (if xs = [] then Inl (ValueError ''zero-size array to reduction operation maximum which has no identity'')
      else Inr (Max (set xs)))"

definition np_argmax :: "real list \<Rightarrow> exn + nat" where
  "np_argmax xs =
     (if xs = [] then Inl (ValueError ''attempt to get argmax of an empty sequence'')
      else Inr (first_index (\<lambda>x. x = Max (set xs)) xs))"

text \<open>\<^verbatim>\<open>np.where(data > t)[0]\<close>: the positions, in increasing order, of the elements above \<open>t\<close>.\<close>

definition np_where_gt :: "real list \<Rightarrow> fl \<Rightarrow> nat list" where
  "np_where_gt xs t = filter (\<lambda>i. exceeds (xs ! i) t) [0..<length xs]"

text \<open>\<^verbatim>\<open>np.arange(a, b)\<close> for integers: \<open>a, a + 1, \<dots>, b - 1\<close>, empty when \<open>b \<le> a\<close>.\<close>

definition np_arange :: "int \<Rightarrow> int \<Rightarrow> int list" where
  "np_arange a b = [a..b - 1]"

subsection \<open>The cut extractor\<close>

text \<open>
  \<^verbatim>\<open>get_cut(data, threshold_level, cut_width_mult)\<close> returns
  \<^verbatim>\<open>(cut_inds, threshold_width, peak_ind, peak)\<close>.  The threshold
  \<^verbatim>\<open>peak * threshold_level\<close> is a float64 product.  The two subscripts
  \<^verbatim>\<open>threshold_inds[-1]\<close> and \<^verbatim>\<open>threshold_inds[0]\<close> raise IndexError on an empty
  array of positions; \<^verbatim>\<open>[-1]\<close> is evaluated first.
\<close>

definition get_cut :: "real list \<Rightarrow> real \<Rightarrow> real \<Rightarrow> exn + (int list \<times> int \<times> int \<times> real)" where
  "get_cut data threshold_level cut_width_mult =
     (case np_argmax data of
        Inl e \<Rightarrow> Inl e
      | Inr peak_ind \<Rightarrow>
          let peak = data ! peak_ind;
              threshold_inds = np_where_gt data (mul64 peak threshold_level)
          in if threshold_inds = []
             then Inl (IndexError ''index -1 is out of bounds for axis 0 with size 0'')
             else
               let threshold_width = int (last threshold_inds) - int (hd threshold_inds);
                   cut_ind_min = py_round (max 0
                     (real peak_ind - cut_width_mult * (real peak_ind - real (hd threshold_inds))));
                   cut_ind_max = py_round (min (real (length data))
                     (real peak_ind + cut_width_mult * (real (last threshold_inds) - real peak_ind) + 1));
                   cut_inds = np_arange cut_ind_min cut_ind_max
               in Inr (cut_inds, threshold_width, int peak_ind, peak))"

subsection \<open>Solver values, fit results and the external collaborators\<close>

text \<open>
  A covariance entry that a solver returns is a float64: a finite number, an infinity or NaN.
  \<^verbatim>\<open>np.isinf\<close> holds of the two infinities only; the truth value of an entry, which
  \<^verbatim>\<open>np.any\<close> reads, is false for zero alone (NaN is truthy).
\<close>

definition np_isinf :: "fl \<Rightarrow> bool" where
  "np_isinf v = (v = PInf \<or> v = NInf)"

definition np_isfinite :: "fl \<Rightarrow> bool" where
  "np_isfinite v = (case v of Finite _ \<Rightarrow> True | _ \<Rightarrow> False)"

definition truthy :: "fl \<Rightarrow> bool" where
  "truthy v = (v \<noteq> Finite 0)"

text \<open>\<^verbatim>\<open>np.any(m)\<close> and \<^verbatim>\<open>np.any(np.isinf(m))\<close> of a matrix \<open>m\<close>.\<close>

definition np_any :: "fl list list \<Rightarrow> bool" where
  "np_any m = list_ex (list_ex truthy) m"

definition np_any_isinf :: "fl list list \<Rightarrow> bool" where
  "np_any_isinf m = list_ex (list_ex np_isinf) m"

text \<open>\<^verbatim>\<open>type_hints.CURVE_FIT\<close>: the pair (parameter vector, covariance matrix).\<close>

type_synonym CURVE_FIT = "real list \<times> fl list list"

text \<open>A model function \<^verbatim>\<open>func(x, *coeff)\<close> at one sample point.\<close>

type_synonym model_fn = "real \<Rightarrow> real list \<Rightarrow> real"

text \<open>The fields of \<^verbatim>\<open>scipy.odr.Output\<close> that the module reads, and what \<^verbatim>\<open>pprint\<close> prints.\<close>

record odr_output =
  beta :: "real list"
  cov_beta :: "fl list list"
  pprint :: "string list"

text \<open>
  The collaborators outside the module are parameters: \<^verbatim>\<open>scipy.optimize.curve_fit\<close>
  (arguments \<open>func x y p0 sigma\<close>), a run of \<^verbatim>\<open>scipy.odr.ODR\<close> (arguments
  \<open>func_odr x y sx sy beta0\<close>), both of which either raise, with a message, or return; and
  the peak models of \<^verbatim>\<open>stats\<close>, pure functions evaluated at a sample point; and
  \<^verbatim>\<open>plt.subplots\<close>.  They are functions of the array contents they are given, so they
  cannot write to an array.
\<close>

text \<open>
  What \<^verbatim>\<open>plt.subplots(nrows, ncols)\<close> hands back as \<^verbatim>\<open>axes\<close>: one axes object, a
  one-dimensional array of axes, or a two-dimensional one.  An axes object is named by a
  number.
\<close>

datatype axes_layout = Axes_single nat | Axes_1d "nat list" | Axes_2d "nat list list"

record ext =
  curve_fit :: "model_fn \<Rightarrow> real list \<Rightarrow> real list \<Rightarrow> real list option \<Rightarrow> real list option
                  \<Rightarrow> string + CURVE_FIT"
  odr_run :: "(real list \<Rightarrow> real \<Rightarrow> real) \<Rightarrow> real list \<Rightarrow> real list \<Rightarrow> real list option
                  \<Rightarrow> real list option \<Rightarrow> real list \<Rightarrow> string + odr_output"
  gaussian_scaled :: model_fn
  gaussian :: model_fn
  gaussian_scaled_odr :: "real list \<Rightarrow> real \<Rightarrow> real"
  subplots :: "int \<Rightarrow> int \<Rightarrow> exn + axes_layout"

subsection \<open>The world: arrays in a store, and the trace of visible effects\<close>

text \<open>
  A numpy array is a cell of the store, named by its address, the position in \<open>heap\<close>;
  a new array takes the next free address.  Everything the module does that is visible from
  outside, apart from writing to an array, is appended to the trace: text printed, calls of
  the solvers (with the arrays passed), and calls on axes and figures.
\<close>

datatype event =
    Print string
  | Curve_fit_call "real list" "real list" "real list option" "real list option"
  | Odr_run_call "real list" "real list" "real list option" "real list option" "real list"
  | Ax_vlines nat int int real
  | Ax_plot nat "real list option" "real list"
  | Ax_set_xlim nat real real
  | Ax_set_ylim nat real real
  | Ax_text nat real real
  | Ax_set_xlabel nat string
  | Ax_set_ylabel nat "string option"
  | Ax_clear_xticklabels nat
  | Ax_clear_yticklabels nat
  | Fig_delaxes nat
  | Fig_suptitle string
  | Save_fig string

record world =
  heap :: "real list list"
  trace :: "event list"

type_synonym 'a prog = "world \<Rightarrow> (exn + 'a) \<times> world"

definition ret :: "'a \<Rightarrow> 'a prog" where
  "ret x w = (Inr x, w)"

definition raise :: "exn \<Rightarrow> 'a prog" where
  "raise e w = (Inl e, w)"

text \<open>Sequencing: an exception ends the computation and keeps the effects made so far.\<close>

definition pbind :: "'a prog \<Rightarrow> ('a \<Rightarrow> 'b prog) \<Rightarrow> 'b prog" where
  "pbind m f w = (case m w of (Inl e, w') \<Rightarrow> (Inl e, w') | (Inr x, w') \<Rightarrow> f x w')"

definition lift :: "exn + 'a \<Rightarrow> 'a prog" where
  "lift r w = (r, w)"

definition emit :: "event \<Rightarrow> unit prog" where
  "emit ev w = (Inr (), w\<lparr>trace := trace w @ [ev]\<rparr>)"

definition pwhen :: "bool \<Rightarrow> unit prog \<Rightarrow> unit prog" where
  "pwhen b m = (if b then m else ret ())"

subsection \<open>The two-stage fitter\<close>

text \<open>
  \<^verbatim>\<open>fit_odr(func, x, y, std_x, std_y, p0, debug)\<close>.  An exception of a solver propagates.
\<close>

definition least_squares_warning :: string where
  "least_squares_warning =
     ''Warning! Least squares covariances could not be estimated. This may indicate a failed fit!''"

definition odr_warning :: string where
  "odr_warning =
     ''Warning! The ODR covariances could not be estimated, '' @
     ''so reverting back to curve_fit results (both parameters and covariances).''"

definition func_odr :: "model_fn \<Rightarrow> real list \<Rightarrow> real \<Rightarrow> real" where
  "func_odr func coeff x = func x coeff"

definition fit_odr ::
  "ext \<Rightarrow> model_fn \<Rightarrow> real list \<Rightarrow> real list \<Rightarrow> real list option \<Rightarrow> real list option
     \<Rightarrow> real list option \<Rightarrow> bool \<Rightarrow> CURVE_FIT prog" where
  "fit_odr E func x y std_x std_y p0 debug =
     pbind (emit (Curve_fit_call x y p0 std_y)) (\<lambda>_.
     pbind (lift (case curve_fit E func x y p0 std_y of
                    Inl msg \<Rightarrow> Inl (SolverError msg) | Inr fit \<Rightarrow> Inr fit)) (\<lambda>fit.
     pbind (pwhen (np_any_isinf (snd fit))
        (emit (Print least_squares_warning))) (\<lambda>_.
     pbind (emit (Odr_run_call x y std_x std_y (fst fit))) (\<lambda>_.
     pbind (lift (case odr_run E (func_odr func) x y std_x std_y (fst fit) of
                    Inl msg \<Rightarrow> Inl (SolverError msg) | Inr out \<Rightarrow> Inr out)) (\<lambda>out.
     pbind (pwhen debug (\<lambda>w. (Inr (), w\<lparr>trace := trace w @ map Print (pprint out)\<rparr>))) (\<lambda>_.
     if \<not> np_any (cov_beta out)
     then pbind (emit (Print odr_warning)) (\<lambda>_.
          ret (fst fit, snd fit))
     else ret (beta out, cov_beta out)))))))"

subsection \<open>The spectrum and the Gaussian MCA fit\<close>

text \<open>
  Modelled from the spec: the class \<^verbatim>\<open>MeasMCA\<close> of \<^verbatim>\<open>devices.mca\<close> is not part of the
  sources.  A spectrum exposes its ordered counts, its ordered channel labels, and a
  differential and an integral nonlinearity array, each of which may be absent
  (\<^verbatim>\<open>None\<close>).  The fields hold the addresses of the arrays.
\<close>

record MeasMCA =
  counts :: nat
  channels :: nat
  diff_nonlin :: "nat option"
  int_nonlin :: "nat option"

text \<open>
  \<^verbatim>\<open>a * b\<close> of two one-dimensional arrays: pointwise on equal lengths, an array of
  length one (which also stands for a single float) is broadcast, any other pair of lengths
  raises ValueError.
\<close>

definition np_mul :: "real list \<Rightarrow> real list \<Rightarrow> exn + real list" where
  "np_mul a b =
     (if length a = length b then Inr (map2 (*) a b)
      else if length a = 1 then Inr (map (\<lambda>v. hd a * v) b)
      else if length b = 1 then Inr (map (\<lambda>v. v * hd b) a)
      else Inl (ValueError ''operands could not be broadcast together''))"

text \<open>
  \<^verbatim>\<open>fit_mca_gaussian(mca, inds, counts, peak, peak_ind, threshold_width)\<close>; every caller in
  the module passes the last three arguments.
\<close>

definition fit_mca_gaussian ::
  "ext \<Rightarrow> MeasMCA \<Rightarrow> int list \<Rightarrow> real list \<Rightarrow> real \<Rightarrow> int \<Rightarrow> int \<Rightarrow> CURVE_FIT prog" where
  "fit_mca_gaussian E mca inds cnts peak peak_ind threshold_width w =
     (if diff_nonlin mca = None \<or> int_nonlin mca = None
      then raise (ValueError ''The MCA measurement should have nonlinearities configured'') w
      else pbind (lift (np_mul (heap w ! the (int_nonlin mca)) cnts)) (\<lambda>std_y.
             fit_odr E (gaussian_scaled E)
               (map real_of_int inds) cnts
               (Some (heap w ! the (diff_nonlin mca)))
               (Some std_y)
               (Some [peak, real_of_int peak_ind, 0.4 * real_of_int threshold_width])
               False) w)"

subsection \<open>Arrays in the store, subscripts and slices\<close>

definition deref :: "nat \<Rightarrow> real list prog" where
  "deref a w = (Inr (heap w ! a), w)"

text \<open>\<^verbatim>\<open>a.copy()\<close>: a new array with the contents of \<open>a\<close>.\<close>

definition np_copy :: "nat \<Rightarrow> nat prog" where
  "np_copy a w = (Inr (length (heap w)), w\<lparr>heap := heap w @ [heap w ! a]\<rparr>)"

text \<open>\<^verbatim>\<open>a[:k] = v\<close> for \<open>k \<ge> 0\<close>: the first \<open>k\<close> elements (all, if there are fewer) become \<open>v\<close>.\<close>

definition assign_prefix :: "nat \<Rightarrow> nat \<Rightarrow> real \<Rightarrow> unit prog" where
  "assign_prefix a k v w =
     (Inr (), w\<lparr>heap := (heap w)[a := replicate (min k (length (heap w ! a))) v @ drop k (heap w ! a)]\<rparr>)"

text \<open>\<^verbatim>\<open>xs[0]\<close> and \<^verbatim>\<open>xs[-1]\<close>.\<close>

definition first_of :: "'a list \<Rightarrow> exn + 'a" where
  "first_of xs = (if xs = [] then Inl (IndexError ''index 0 is out of bounds for axis 0 with size 0'')
                  else Inr (hd xs))"

definition last_of :: "'a list \<Rightarrow> exn + 'a" where
  "last_of xs = (if xs = [] then Inl (IndexError ''index -1 is out of bounds for axis 0 with size 0'')
                 else Inr (last xs))"

text \<open>\<^verbatim>\<open>xs[i]\<close> for an integer \<open>i\<close>: a negative subscript counts from the end.\<close>

definition py_subscript :: "'a list \<Rightarrow> int \<Rightarrow> exn + 'a" where
  "py_subscript xs i =
     (let n = int (length xs); j = (if i < 0 then n + i else i)
      in if 0 \<le> j \<and> j < n then Inr (xs ! nat j) else Inl (IndexError ''index is out of bounds for axis 0''))"

text \<open>\<^verbatim>\<open>xs[inds]\<close> for an array of integers: the elements at these subscripts, a new array.\<close>

fun fancy_index :: "'a list \<Rightarrow> int list \<Rightarrow> exn + 'a list" where
  "fancy_index xs [] = Inr []"
| "fancy_index xs (i # inds) =
     (case py_subscript xs i of
        Inl e \<Rightarrow> Inl e
      | Inr v \<Rightarrow> (case fancy_index xs inds of Inl e \<Rightarrow> Inl e | Inr vs \<Rightarrow> Inr (v # vs)))"

text \<open>\<^verbatim>\<open>xs[:k]\<close>: a negative bound counts from the end.\<close>

definition py_slice_to :: "'a list \<Rightarrow> int \<Rightarrow> 'a list" where
  "py_slice_to xs k = (if 0 \<le> k then take (nat k) xs else take (nat (int (length xs) + k)) xs)"

subsection \<open>The spectrum fit orchestrators\<close>

definition THRESHOLD_LEVEL :: real where
  "THRESHOLD_LEVEL = 0.5"

definition CUT_WIDTH_MULT :: real where
  "CUT_WIDTH_MULT = 1.7"

text \<open>
  The curve \<^verbatim>\<open>fit[0][0] * stats.gaussian(mca.channels, *fit[0][1:])\<close>, which three of the
  functions plot; \<^verbatim>\<open>fit[0][0]\<close> raises on an empty parameter vector.
\<close>

definition gaussian_curve :: "ext \<Rightarrow> real list \<Rightarrow> real list \<Rightarrow> exn + real list" where
  "gaussian_curve E params chans =
     (case first_of params of
        Inl e \<Rightarrow> Inl e
      | Inr amplitude \<Rightarrow> Inr (map (\<lambda>x. amplitude * gaussian E x (tl params)) chans))"

text \<open>\<^verbatim>\<open>ax.vlines((cut_inds[0], cut_inds[-1]), ymin=0, ymax=peak, \<dots>)\<close>.\<close>

definition draw_cut :: "nat \<Rightarrow> int list \<Rightarrow> real \<Rightarrow> unit prog" where
  "draw_cut ax cut_inds peak =
     pbind (lift (first_of cut_inds)) (\<lambda>lo.
     pbind (lift (last_of cut_inds)) (\<lambda>hi.
     emit (Ax_vlines ax lo hi peak)))"

text \<open>
  \<^verbatim>\<open>fit_am(mca, ax, threshold_level, cut_width_mult, subtracted, vlines)\<close>.  The name
  \<^verbatim>\<open>counts\<close> is bound to the caller's array, \<^verbatim>\<open>subtracted\<close> if given; \<^verbatim>\<open>filtered\<close> is a
  copy of it, and only the copy is written to.
\<close>

definition fit_am ::
  "ext \<Rightarrow> MeasMCA \<Rightarrow> nat \<Rightarrow> real \<Rightarrow> real \<Rightarrow> nat option \<Rightarrow> bool \<Rightarrow> CURVE_FIT prog" where
  "fit_am E mca ax threshold_level cut_width_mult subtracted vlines =
     (let counts_ref = (case subtracted of Some a \<Rightarrow> a | None \<Rightarrow> counts mca) in
      pbind (deref counts_ref) (\<lambda>cnts.
      pbind (lift (np_max cnts)) (\<lambda>peak.
      let above_threshold = np_where_gt cnts (mul64 threshold_level peak) in
      pbind (lift (first_of above_threshold)) (\<lambda>above_first.
      pbind (lift (last_of above_threshold)) (\<lambda>above_last.
      let half_ind = (above_first + above_last) div 2 in
      pbind (np_copy counts_ref) (\<lambda>filtered.
      pbind (assign_prefix filtered half_ind 0) (\<lambda>_.
      pbind (deref filtered) (\<lambda>filtered_data.
      pbind (lift (get_cut filtered_data threshold_level cut_width_mult))
        (\<lambda>(cut_inds, threshold_width, peak_ind, peak).
      pbind (pwhen vlines (draw_cut ax cut_inds peak)) (\<lambda>_.
      pbind (deref counts_ref) (\<lambda>cnts.
      pbind (lift (fancy_index cnts cut_inds)) (\<lambda>windowed.
      pbind (fit_mca_gaussian E mca cut_inds windowed peak peak_ind threshold_width) (\<lambda>fit.
      pbind (deref (channels mca)) (\<lambda>chans.
      pbind (emit (Ax_plot ax (Some chans) (map (gaussian_scaled_odr E (fst fit)) chans))) (\<lambda>_.
      ret fit)))))))))))))))"

text \<open>
  \<^verbatim>\<open>fit_fe(mca, ax, threshold_level, cut_width_mult, secondary, subtracted, vlines)\<close> returns
  one fit, or the pair of the primary and the secondary fit.
\<close>

datatype fe_fit = One_fit CURVE_FIT | Two_fits CURVE_FIT CURVE_FIT

definition fit_fe ::
  "ext \<Rightarrow> MeasMCA \<Rightarrow> nat \<Rightarrow> real \<Rightarrow> real \<Rightarrow> bool \<Rightarrow> nat option \<Rightarrow> bool \<Rightarrow> fe_fit prog" where
  "fit_fe E mca ax threshold_level cut_width_mult secondary subtracted vlines =
     (let counts_ref = (case subtracted of Some a \<Rightarrow> a | None \<Rightarrow> counts mca) in
      pbind (deref counts_ref) (\<lambda>cnts.
      pbind (lift (get_cut cnts threshold_level cut_width_mult))
        (\<lambda>(cut_inds, threshold_width, peak_ind, peak).
      pbind (lift (fancy_index cnts cut_inds)) (\<lambda>windowed.
      pbind (fit_mca_gaussian E mca cut_inds windowed peak peak_ind threshold_width) (\<lambda>fit.
      if \<not> secondary
      then
        pbind (deref (channels mca)) (\<lambda>chans.
        pbind (lift (gaussian_curve E (fst fit) chans)) (\<lambda>fit_data.
        pbind (emit (Ax_plot ax (Some chans) fit_data)) (\<lambda>_.
        ret (One_fit fit))))
      else
        pbind (lift (first_of cut_inds)) (\<lambda>cut_start.
        pbind (deref counts_ref) (\<lambda>cnts.
        pbind (lift (get_cut (py_slice_to cnts (cut_start - 10)) threshold_level cut_width_mult))
          (\<lambda>(cut_inds2, threshold_width2, peak_ind2, peak2).
        pbind (pwhen vlines (draw_cut ax cut_inds2 peak)) (\<lambda>_.
        pbind (lift (fancy_index cnts cut_inds2)) (\<lambda>windowed2.
        pbind (fit_mca_gaussian E mca cut_inds2 windowed2 peak2 peak_ind2 threshold_width2) (\<lambda>fit2.
        pbind (deref (channels mca)) (\<lambda>chans.
        pbind (lift (gaussian_curve E (fst fit) chans)) (\<lambda>fit1_data.
        pbind (lift (gaussian_curve E (fst fit2) chans)) (\<lambda>fit2_data.
        pbind (emit (Ax_plot ax (Some chans) (map2 (+) fit1_data fit2_data))) (\<lambda>_.
        ret (Two_fits fit fit2))))))))))))))))"

text \<open>\<^verbatim>\<open>fit_manual(mca, ax, min_ind, max_ind, subtracted, vlines)\<close>.\<close>

definition fit_manual ::
  "ext \<Rightarrow> MeasMCA \<Rightarrow> nat \<Rightarrow> int \<Rightarrow> int \<Rightarrow> nat option \<Rightarrow> bool \<Rightarrow> CURVE_FIT prog" where
  "fit_manual E mca ax min_ind max_ind subtracted vlines =
     (let counts_ref = (case subtracted of Some a \<Rightarrow> a | None \<Rightarrow> counts mca);
          cut_inds = np_arange min_ind max_ind in
      pbind (deref counts_ref) (\<lambda>cnts.
      pbind (lift (fancy_index cnts cut_inds)) (\<lambda>windowed.
      pbind (lift (np_argmax windowed)) (\<lambda>offset.
      let peak_ind = min_ind + int offset in
      pbind (lift (py_subscript cnts peak_ind)) (\<lambda>peak.
      let threshold_width = max_ind - min_ind in
      pbind (pwhen vlines (draw_cut ax cut_inds peak)) (\<lambda>_.
      pbind (lift (fancy_index cnts cut_inds)) (\<lambda>windowed.
      pbind (fit_mca_gaussian E mca cut_inds windowed peak peak_ind threshold_width) (\<lambda>fit.
      pbind (deref (channels mca)) (\<lambda>chans.
      pbind (lift (gaussian_curve E (fst fit) chans)) (\<lambda>fit_data.
      pbind (emit (Ax_plot ax (Some chans) fit_data)) (\<lambda>_.
      ret fit)))))))))))"

subsection \<open>The subplot grid\<close>

text \<open>\<^verbatim>\<open>int(x)\<close> of a float truncates towards zero.\<close>

definition py_int :: "real \<Rightarrow> int" where
  "py_int x = (if 0 \<le> x then \<lfloor>x\<rfloor> else \<lceil>x\<rceil>)"

definition emits :: "event list \<Rightarrow> unit prog" where
  "emits evs w = (Inr (), w\<lparr>trace := trace w @ evs\<rparr>)"

text \<open>
  \<^verbatim>\<open>[item for sublist in axes for item in sublist]\<close>: an axes object cannot be iterated
  over, so only a two-dimensional array (or an empty one) can be flattened.
\<close>

definition flatten_axes :: "axes_layout \<Rightarrow> exn + nat list" where
  "flatten_axes axes =
     (case axes of
        Axes_single a \<Rightarrow> Inl (TypeError ''Axes object is not iterable'')
      | Axes_1d row \<Rightarrow> (if row = [] then Inr [] else Inl (TypeError ''Axes object is not iterable''))
      | Axes_2d rows \<Rightarrow> Inr (concat rows))"

text \<open>The body of the loop that labels the axes; \<open>i\<close> is the position of \<open>ax\<close>.\<close>

definition label_axes :: "nat \<Rightarrow> int \<Rightarrow> string option \<Rightarrow> string option \<Rightarrow> nat \<times> nat \<Rightarrow> event list" where
  "label_axes num_plots num_plots_x xlabel ylabel = (\<lambda>(i, ax).
     (case xlabel of
        None \<Rightarrow> []
      | Some xl \<Rightarrow>
          (if int num_plots - int i \<le> num_plots_x then [Ax_set_xlabel ax xl]
           else [Ax_clear_xticklabels ax]) @
          (if int i mod num_plots_x = 0 then [Ax_set_ylabel ax ylabel]
           else [Ax_clear_yticklabels ax])))"

text \<open>
  \<^verbatim>\<open>create_subplot_grid(num_plots, grid_aspect_ratio, xlabel, ylabel)\<close> returns the flat
  list of axes and the two grid dimensions (the figure itself is not modelled).  The
  quotient \<^verbatim>\<open>num_plots / num_plots_x\<close> of two Python integers raises on a zero divisor.
\<close>

definition create_subplot_grid ::
  "ext \<Rightarrow> nat \<Rightarrow> real \<Rightarrow> string option \<Rightarrow> string option \<Rightarrow> (nat list \<times> int \<times> int) prog" where
  "create_subplot_grid E num_plots grid_aspect_ratio xlabel ylabel =
     (let num_plots_x = py_int (sqrt (real num_plots) * grid_aspect_ratio) in
      if num_plots_x = 0 then raise (ZeroDivisionError ''division by zero'')
      else
        let num_plots_y = \<lceil>real num_plots / real_of_int num_plots_x\<rceil> in
        pbind (lift (subplots E num_plots_y num_plots_x)) (\<lambda>axes.
        pbind (lift (flatten_axes axes)) (\<lambda>axes_flat.
        pbind (emits (map Fig_delaxes (drop num_plots axes_flat))) (\<lambda>_.
        pbind (emits (concat (map (label_axes num_plots num_plots_x xlabel ylabel)
                 (enumerate 0 axes_flat)))) (\<lambda>_.
        ret (axes_flat, num_plots_x, num_plots_y))))))"

subsection \<open>The batch orchestrators\<close>

text \<open>A list comprehension or a collecting loop whose body has effects and may raise.\<close>

fun collect :: "('a \<Rightarrow> 'b prog) \<Rightarrow> 'a list \<Rightarrow> 'b list prog" where
  "collect f [] = ret []"
| "collect f (x # xs) = pbind (f x) (\<lambda>y. pbind (collect f xs) (\<lambda>ys. ret (y # ys)))"

text \<open>
  The common prelude of the two scans: the largest count and the largest last channel over
  all spectra, and the upper limit of the count axis, the next multiple of 50.
\<close>

definition scan_limits :: "MeasMCA list \<Rightarrow> (real \<times> real) prog" where
  "scan_limits mcas =
     pbind (collect (\<lambda>mca. pbind (deref (counts mca)) (\<lambda>cnts. lift (np_max cnts))) mcas) (\<lambda>heights.
     pbind (lift (np_max heights)) (\<lambda>max_peak_height.
     pbind (collect (\<lambda>mca. pbind (deref (channels mca)) (\<lambda>chans. lift (last_of chans))) mcas) (\<lambda>lasts.
     pbind (lift (np_max lasts)) (\<lambda>max_ch.
     let y_adjust_step = 50;
         max_peak_height_round = y_adjust_step * of_int \<lceil>max_peak_height / y_adjust_step\<rceil>
     in ret (max_ch, max_peak_height_round)))))"

text \<open>The part of a loop body that the two scans share: the axes of the spectrum are set up.\<close>

definition scan_axes ::
  "nat list \<Rightarrow> real list \<Rightarrow> real list \<Rightarrow> real \<Rightarrow> real \<Rightarrow> nat \<Rightarrow> MeasMCA \<Rightarrow> nat prog" where
  "scan_axes axes voltages gains max_ch max_peak_height_round i mca =
     pbind (lift (py_subscript axes (int i))) (\<lambda>ax.
     pbind (deref (counts mca)) (\<lambda>cnts.
     pbind (emit (Ax_plot ax None cnts)) (\<lambda>_.
     pbind (emit (Ax_set_xlim ax 0 max_ch)) (\<lambda>_.
     pbind (emit (Ax_set_ylim ax 0 max_peak_height_round)) (\<lambda>_.
     pbind (lift (py_subscript voltages (int i))) (\<lambda>v.
     pbind (lift (py_subscript gains (int i))) (\<lambda>g.
     pbind (emit (Ax_text ax v g)) (\<lambda>_.
     ret ax))))))))"

text \<open>\<^verbatim>\<open>fit_am_hv_scan(mcas, voltages, gains, fig_titles, vlines)\<close>.\<close>

definition fit_am_hv_scan ::
  "ext \<Rightarrow> MeasMCA list \<Rightarrow> real list \<Rightarrow> real list \<Rightarrow> bool \<Rightarrow> bool \<Rightarrow> CURVE_FIT list prog" where
  "fit_am_hv_scan E mcas voltages gains fig_titles vlines =
     pbind (emit (Print ''Fitting Am HV scan'')) (\<lambda>_.
     pbind (create_subplot_grid E (length mcas) 1 (Some ''MCA ch.'') (Some ''Count''))
       (\<lambda>(axes, num_plots_x, num_plots_y).
     pbind (pwhen fig_titles (emit (Fig_suptitle ''Am fits''))) (\<lambda>_.
     pbind (scan_limits mcas) (\<lambda>(max_ch, max_peak_height_round).
     pbind (collect (\<lambda>(i, mca).
              pbind (scan_axes axes voltages gains max_ch max_peak_height_round i mca) (\<lambda>ax.
              fit_am E mca ax THRESHOLD_LEVEL CUT_WIDTH_MULT None vlines))
            (enumerate 0 mcas)) (\<lambda>fits.
     pbind (emit (Save_fig ''am_scan_fits'')) (\<lambda>_.
     ret fits))))))"

text \<open>\<^verbatim>\<open>fit_fe_hv_scan(mcas, voltages, gains, threshold_level, cut_width_mult, fig_titles, vlines)\<close>.\<close>

definition fit_fe_hv_scan ::
  "ext \<Rightarrow> MeasMCA list \<Rightarrow> real list \<Rightarrow> real list \<Rightarrow> real \<Rightarrow> real \<Rightarrow> bool \<Rightarrow> bool \<Rightarrow> fe_fit list prog" where
  "fit_fe_hv_scan E mcas voltages gains threshold_level cut_width_mult fig_titles vlines =
     pbind (emit (Print ''Fitting Fe HV scan'')) (\<lambda>_.
     pbind (create_subplot_grid E (length mcas) 1 (Some ''MCA ch.'') (Some ''Count''))
       (\<lambda>(axes, num_plots_x, num_plots_y).
     pbind (pwhen fig_titles (emit (Fig_suptitle ''Fe fits''))) (\<lambda>_.
     pbind (scan_limits mcas) (\<lambda>(max_ch, max_peak_height_round).
     pbind (collect (\<lambda>(i, mca).
              pbind (scan_axes axes voltages gains max_ch max_peak_height_round i mca) (\<lambda>ax.
              fit_fe E mca ax threshold_level cut_width_mult False None vlines))
            (enumerate 0 mcas)) (\<lambda>fits.
     pbind (emit (Save_fig ''fe_scan_fits'')) (\<lambda>_.
     ret fits))))))"

subsection \<open>Notions for stating independence of the store\<close>

text \<open>The arrays of a spectrum exist in the store.\<close>

definition allocated :: "world \<Rightarrow> MeasMCA \<Rightarrow> bool" where
  "allocated w mca \<longleftrightarrow>
     counts mca < length (heap w) \<and> channels mca < length (heap w) \<and>
     (case diff_nonlin mca of None \<Rightarrow> True | Some a \<Rightarrow> a < length (heap w)) \<and>
     (case int_nonlin mca of None \<Rightarrow> True | Some a \<Rightarrow> a < length (heap w))"

text \<open>
  What a scan needs apart from the fits themselves: at least one spectrum, every spectrum in
  the store with non-empty counts and channel labels, a grid with an axes for every spectrum,
  and a voltage and a gain for every spectrum.
\<close>

definition scan_prepared :: "ext \<Rightarrow> world \<Rightarrow> MeasMCA list \<Rightarrow> real list \<Rightarrow> real list \<Rightarrow> bool" where
  "scan_prepared E w mcas voltages gains \<longleftrightarrow>
     mcas \<noteq> [] \<and>
     list_all (\<lambda>mca. allocated w mca \<and> heap w ! counts mca \<noteq> [] \<and> heap w ! channels mca \<noteq> []) mcas \<and>
     (case fst (create_subplot_grid E (length mcas) 1 (Some ''MCA ch.'') (Some ''Count'') w) of
        Inl e \<Rightarrow> False
      | Inr (axes, num_plots_x, num_plots_y) \<Rightarrow> length mcas \<le> length axes) \<and>
     length mcas \<le> length voltages \<and> length mcas \<le> length gains"

text \<open>Two worlds hold the same arrays at the first \<open>n\<close> addresses.\<close>

definition agree :: "nat \<Rightarrow> world \<Rightarrow> world \<Rightarrow> bool" where
  "agree n w w' \<longleftrightarrow> n \<le> length (heap w) \<and> n \<le> length (heap w') \<and> take n (heap w) = take n (heap w')"

text \<open>
  Two computations that, started in worlds that agree on the first \<open>n\<close> addresses, return the
  same value (or raise the same exception) and end in worlds that still agree there.
\<close>

definition same_value :: "nat \<Rightarrow> 'a prog \<Rightarrow> 'a prog \<Rightarrow> bool" where
  "same_value n m m' \<longleftrightarrow>
     (\<forall>w w'. agree n w w' \<longrightarrow> fst (m w) = fst (m' w') \<and> agree n (snd (m w)) (snd (m' w')))"

text \<open>A computation that leaves the store as it finds it.\<close>

definition keeps_heap :: "'a prog \<Rightarrow> bool" where
  "keeps_heap m \<longleftrightarrow> (\<forall>w. heap (snd (m w)) = heap w)"

subsection \<open>Example collaborators\<close>

text \<open>
  Solvers for the examples: the least-squares stage returns its initial guess (three ones
  without a guess) with the covariance \<open>seed_cov\<close>, the refinement moves every parameter by
  one and returns the covariance \<open>refined_cov\<close>.  The grid of axes is always
  two-dimensional, the axes numbered row by row.
\<close>

definition example_solvers :: "fl list list \<Rightarrow> fl list list \<Rightarrow> ext" where
  "example_solvers seed_cov refined_cov =
     \<lparr>curve_fit = (\<lambda>func x y p0 sigma. Inr (case p0 of Some p \<Rightarrow> p | None \<Rightarrow> [1, 1, 1], seed_cov)),
      odr_run = (\<lambda>f x y sx sy beta0.
         Inr \<lparr>beta = map (\<lambda>b. b + 1) beta0, cov_beta = refined_cov, pprint = [''Beta:'']\<rparr>),
      gaussian_scaled = (\<lambda>x c. 0),
      gaussian = (\<lambda>x c. 0),
      gaussian_scaled_odr = (\<lambda>c x. 0),
      subplots = (\<lambda>nrows ncols.
         Inr (Axes_2d (map (\<lambda>r. map (\<lambda>c. r * nat ncols + c) [0..<nat ncols]) [0..<nat nrows])))\<rparr>"

subsection \<open>Example spectra\<close>

text \<open>
  A spectrum of 100 channels with two peaks of Gaussian shape and width 5: the primary
  peak of height 100 at channel 80 and a secondary peak of height 40 at channel 20.
\<close>

definition example_two_peaks :: "real list" where
  "example_two_peaks =
     [0, 0, 0, 0, 0, 0, 1, 1, 2, 4, 5, 8, 11, 15, 19, 24, 29, 33, 37, 39,
      40, 39, 37, 33, 29, 24, 19, 15, 11, 8, 5, 4, 2, 1, 1, 0, 0, 0, 0, 0,
      0, 0, 0, 0, 0, 0, 0, 0, 0, 0, 0, 0, 0, 0, 0, 0, 0, 0, 0, 0,
      0, 0, 0, 0, 1, 1, 2, 3, 6, 9, 14, 20, 28, 38, 49, 61, 73, 84, 92, 98,
      100, 98, 92, 84, 73, 61, 49, 38, 28, 20, 14, 9, 6, 3, 2, 1, 1, 0, 0, 0]"

text \<open>
  A spectrum of 20 channels whose primary peak, of height 10, is at channel 12 and whose
  secondary peak, of height 4, is at channel 1: the peaks are 11 channels apart.
\<close>

definition example_close_peaks :: "real list" where
  "example_close_peaks = [1, 4, 1, 0, 0, 0, 0, 0, 1, 3, 6, 9, 10, 9, 6, 3, 1, 0, 0, 0]"

text \<open>
  Two float64 values: the smallest positive one, \<open>2 ^ - 1074\<close> (written \<^verbatim>\<open>5e-324\<close>), and the
  one nearest to nine tenths, which is what the literal \<^verbatim>\<open>0.9\<close> denotes.
\<close>

definition example_subnormal :: real where
  "example_subnormal = 1 / 2 ^ 1074"

definition example_level :: real where
  "example_level = 8106479329266893 / 9007199254740992"

text \<open>
  A store that holds the counts \<open>cnts\<close> at address 0, the channel labels at address 1 and
  the two nonlinearities, one value each, at addresses 2 and 3; and the spectrum made of
  these four arrays.
\<close>

definition example_world :: "real list \<Rightarrow> world" where
  "example_world cnts =
     \<lparr>heap = [cnts, map real [0..<length cnts], [1 / 100], [1 / 50]], trace = []\<rparr>"

definition example_mca :: MeasMCA where
  "example_mca = \<lparr>counts = 0, channels = 1, diff_nonlin = Some 2, int_nonlin = Some 3\<rparr>"

text \<open>
  A store with two spectra that share the channel labels and the nonlinearities: the counts
  of the first are at address 0, those of the second at address 4.
\<close>

definition example_scan_world :: world where
  "example_scan_world =
     \<lparr>heap = [[0, 1, 3, 1, 0, 2, 6, 10, 6, 2, 0], [0, 1, 2, 3, 4, 5, 6, 7, 8, 9, 10], [1 / 100], [1 / 50],
              [1, 2, 7, 2, 1, 0, 0, 0, 0, 0, 0]],
      trace = []\<rparr>"

definition example_mca2 :: MeasMCA where
  "example_mca2 = \<lparr>counts = 4, channels = 1, diff_nonlin = Some 2, int_nonlin = Some 3\<rparr>"

text \<open>A spectrum of the same store whose differential nonlinearity is absent.\<close>

definition example_mca_unconfigured :: MeasMCA where
  "example_mca_unconfigured = \<lparr>counts = 0, channels = 1, diff_nonlin = None, int_nonlin = Some 3\<rparr>"

section \<open>Facts\<close>

subsection \<open>Facts about the primitives\<close>

lemma py_round_of_int: "py_round (of_int k) = k"
  by (simp add: py_round_def)

lemma py_round_floor_le: "\<lfloor>x\<rfloor> \<le> py_round x"
  by (simp add: py_round_def Let_def)

lemma py_round_le_floor: "py_round x \<le> \<lfloor>x\<rfloor> + 1"
  by (simp add: py_round_def Let_def)

lemma py_round_mono: "x \<le> y \<Longrightarrow> py_round x \<le> py_round y"
proof -
  assume xy: "x \<le> y"
  then have f: "\<lfloor>x\<rfloor> \<le> \<lfloor>y\<rfloor>" by (rule floor_mono)
  show ?thesis
  proof (cases "\<lfloor>x\<rfloor> = \<lfloor>y\<rfloor>")
    case True
    with xy have "x - of_int \<lfloor>x\<rfloor> \<le> y - of_int \<lfloor>y\<rfloor>" by simp
    with True show ?thesis by (auto simp: py_round_def Let_def)
  next
    case False
    with f have "\<lfloor>x\<rfloor> + 1 \<le> \<lfloor>y\<rfloor>" by simp
    with py_round_le_floor [of x] py_round_floor_le [of y] show ?thesis by linarith
  qed
qed

lemma py_round_le_int: "x \<le> of_int k \<Longrightarrow> py_round x \<le> k"
  using py_round_mono [of x "of_int k"] by (simp add: py_round_of_int)

lemma py_round_ge_int: "of_int k \<le> x \<Longrightarrow> k \<le> py_round x"
  using py_round_mono [of "of_int k" x] by (simp add: py_round_of_int)

lemma first_index_less: "\<exists>x \<in> set xs. P x \<Longrightarrow> first_index P xs < length xs"
  by (induction xs) auto

lemma first_index_sat: "\<exists>x \<in> set xs. P x \<Longrightarrow> P (xs ! first_index P xs)"
  by (induction xs) auto

lemma np_argmax_Inr:
  assumes "xs \<noteq> []"
  shows "\<exists>p. np_argmax xs = Inr p \<and> p < length xs \<and> xs ! p = Max (set xs)"
proof -
  from assms have "Max (set xs) \<in> set xs" by (intro Max_in) auto
  then have ex: "\<exists>x \<in> set xs. x = Max (set xs)" by blast
  from first_index_less [of xs "\<lambda>x. x = Max (set xs)", OF ex]
       first_index_sat [of xs "\<lambda>x. x = Max (set xs)", OF ex] assms
  show ?thesis by (simp add: np_argmax_def)
qed

lemma np_argmax_InrD:
  assumes "np_argmax xs = Inr p"
  shows "xs \<noteq> [] \<and> p < length xs \<and> xs ! p = Max (set xs)"
proof -
  from assms have ne: "xs \<noteq> []" by (auto simp: np_argmax_def split: if_splits)
  from np_argmax_Inr [OF ne] assms show ?thesis using ne by auto
qed

lemma exceeds_mono: "exceeds x t \<Longrightarrow> x \<le> y \<Longrightarrow> exceeds y t"
  by (cases t) (simp_all add: exceeds_def)

lemma set_np_where_gt: "set (np_where_gt xs t) = {i. i < length xs \<and> exceeds (xs ! i) t}"
  by (auto simp: np_where_gt_def)

lemma sorted_np_where_gt: "sorted (np_where_gt xs t)"
  by (simp add: np_where_gt_def sorted_wrt_filter)

lemma sorted_hd_le: "sorted (xs::nat list) \<Longrightarrow> x \<in> set xs \<Longrightarrow> hd xs \<le> x"
  by (cases xs) auto

lemma sorted_le_last: "sorted (xs::nat list) \<Longrightarrow> x \<in> set xs \<Longrightarrow> x \<le> last xs"
  by (induction xs) (auto split: if_splits)

lemma np_where_gt_bounds:
  assumes "i \<in> set (np_where_gt xs t)"
  shows "hd (np_where_gt xs t) \<le> i" "i \<le> last (np_where_gt xs t)" "last (np_where_gt xs t) < length xs"
proof -
  show "hd (np_where_gt xs t) \<le> i" using assms sorted_np_where_gt sorted_hd_le by blast
  show "i \<le> last (np_where_gt xs t)" using assms sorted_np_where_gt sorted_le_last by blast
  from assms have "np_where_gt xs t \<noteq> []" by auto
  then have "last (np_where_gt xs t) \<in> set (np_where_gt xs t)" by simp
  then show "last (np_where_gt xs t) < length xs" by (simp add: set_np_where_gt)
qed

text \<open>If anything is above the threshold, the maximum is.\<close>
lemma peak_qualifies:
  assumes "np_argmax xs = Inr p" "np_where_gt xs (mul64 (xs ! p) t) \<noteq> []"
  shows "p \<in> set (np_where_gt xs (mul64 (xs ! p) t))"
proof -
  from assms(2) obtain i where i: "i \<in> set (np_where_gt xs (mul64 (xs ! p) t))"
    by (cases "np_where_gt xs (mul64 (xs ! p) t)") auto
  then have il: "i < length xs" and gt: "exceeds (xs ! i) (mul64 (xs ! p) t)"
    by (auto simp: set_np_where_gt)
  from np_argmax_InrD [OF assms(1)] have p: "p < length xs" "xs ! p = Max (set xs)" by auto
  from il have "xs ! i \<le> Max (set xs)" by simp
  with exceeds_mono [OF gt] p show ?thesis by (simp add: set_np_where_gt)
qed

subsection \<open>Facts about the cut extractor\<close>

lemma np_arange_set: "set (np_arange a b) = {a..<b}"
  by (auto simp: np_arange_def)

lemma np_arange_nonempty:
  assumes "a < b"
  shows "np_arange a b \<noteq> []" "hd (np_arange a b) = a" "last (np_arange a b) = b - 1"
proof -
  from assms have le: "a \<le> b - 1" by simp
  show "np_arange a b \<noteq> []" using le by (simp add: np_arange_def)
  show "hd (np_arange a b) = a" using upto_rec1 [OF le] by (simp add: np_arange_def)
  show "last (np_arange a b) = b - 1" using upto_rec2 [OF le] by (simp add: np_arange_def)
qed

text \<open>What a successful call computes, in terms of the three positions it finds.\<close>
lemma get_cut_Inr:
  assumes "np_argmax data = Inr p" "np_where_gt data (mul64 (data ! p) thr) \<noteq> []"
  shows "get_cut data thr cm =
     Inr (np_arange
            (py_round (max 0 (real p - cm * (real p - real (hd (np_where_gt data (mul64 (data ! p) thr)))))))
            (py_round (min (real (length data))
                 (real p + cm * (real (last (np_where_gt data (mul64 (data ! p) thr))) - real p) + 1))),
          int (last (np_where_gt data (mul64 (data ! p) thr))) - int (hd (np_where_gt data (mul64 (data ! p) thr))),
          int p, data ! p)"
  using assms by (simp add: get_cut_def Let_def)

lemma get_cut_InrD:
  assumes "get_cut data thr cm = Inr r"
  shows "\<exists>p. np_argmax data = Inr p \<and> np_where_gt data (mul64 (data ! p) thr) \<noteq> []"
  using assms by (auto simp: get_cut_def Let_def split: sum.splits if_splits)

lemma cut_bounds:
  assumes am: "np_argmax data = Inr p" and ne: "np_where_gt data (mul64 (data ! p) thr) \<noteq> []"
  defines "f \<equiv> hd (np_where_gt data (mul64 (data ! p) thr))"
  defines "l \<equiv> last (np_where_gt data (mul64 (data ! p) thr))"
  assumes m: "0 \<le> cm"
  shows "0 \<le> py_round (max 0 (real p - cm * (real p - real f)))"
    and "py_round (max 0 (real p - cm * (real p - real f))) \<le> int p"
    and "int p + 1 \<le> py_round (min (real (length data)) (real p + cm * (real l - real p) + 1))"
    and "py_round (min (real (length data)) (real p + cm * (real l - real p) + 1)) \<le> int (length data)"
proof -
  from peak_qualifies [OF am ne] have pin: "p \<in> set (np_where_gt data (mul64 (data ! p) thr))" .
  from np_where_gt_bounds [OF pin] have fp: "f \<le> p" and pl: "p \<le> l" and ll: "l < length data"
    by (simp_all add: f_def l_def)
  from np_argmax_InrD [OF am] have pn: "p < length data" by simp
  have "(0::real) = of_int 0" by simp
  show "0 \<le> py_round (max 0 (real p - cm * (real p - real f)))"
    by (rule py_round_ge_int) simp
  have "0 \<le> cm * (real p - real f)" using m fp by simp
  then have "max 0 (real p - cm * (real p - real f)) \<le> of_int (int p)" by simp
  then show "py_round (max 0 (real p - cm * (real p - real f))) \<le> int p"
    by (rule py_round_le_int)
  have "0 \<le> cm * (real l - real p)" using m pl by simp
  then have "of_int (int p + 1) \<le> min (real (length data)) (real p + cm * (real l - real p) + 1)"
    using pn by simp
  then show "int p + 1 \<le> py_round (min (real (length data)) (real p + cm * (real l - real p) + 1))"
    by (rule py_round_ge_int)
  have "min (real (length data)) (real p + cm * (real l - real p) + 1) \<le> of_int (int (length data))"
    by simp
  then show "py_round (min (real (length data)) (real p + cm * (real l - real p) + 1)) \<le> int (length data)"
    by (rule py_round_le_int)
qed

lemma np_arange_rec: "np_arange a b = (if a < b then a # np_arange (a + 1) b else [])"
  by (simp add: np_arange_def upto_rec1)

lemma singleton_cut:
  assumes am: "np_argmax data = Inr p" and one: "np_where_gt data (mul64 (data ! p) thr) = [q]"
  shows "get_cut data thr cm = Inr ([int q], 0, int q, data ! p)"
proof -
  from one have ne: "np_where_gt data (mul64 (data ! p) thr) \<noteq> []" by simp
  from peak_qualifies [OF am ne] one have qp: "q = p" by simp
  from np_argmax_InrD [OF am] have pn: "p < length data" by simp
  then have mn: "min (real (length data)) (real p + 1) = of_int (int p + 1)" by simp
  have mx: "max 0 (real p) = of_int (int p)" by simp
  have "np_arange (int p) (int p + 1) = [int p]" by (simp add: np_arange_def)
  with get_cut_Inr [OF am ne, of cm] show ?thesis
    unfolding one qp by (simp add: mn mx py_round_of_int del: of_int_add of_int_of_nat_eq)
qed

subsection \<open>Values of the rounded product\<close>

lemmas float64_defs = mul64_def to_float64_def round64_def ulp64_def exponent_def pow2_def
  bit_length.simps py_round_def Let_def

lemma mul64_values:
  "mul64 10 (1 / 2) = Finite 5" "mul64 (1 / 2) 10 = Finite 5"
  "mul64 7 (1 / 2) = Finite (7 / 2)" "mul64 (1 / 2) 7 = Finite (7 / 2)"
  "mul64 100 (1 / 2) = Finite 50" "mul64 40 (1 / 2) = Finite 20"
  "mul64 5 (1 / 2) = Finite (5 / 2)" "mul64 3 (1 / 2) = Finite (3 / 2)" "mul64 0 (1 / 2) = Finite 0"
  by (simp_all add: float64_defs)

text \<open>The smallest positive float64 times the float64 nearest to 0.9 rounds back to itself.\<close>

lemma mul64_subnormal: "mul64 example_subnormal example_level = Finite example_subnormal"
  by (simp add: float64_defs example_subnormal_def example_level_def)

lemma example_subnormal_pos: "0 < example_subnormal"
  by (simp add: example_subnormal_def)

lemma example_level_bounds: "0 < example_level" "example_level < 1"
  by (simp_all add: example_level_def)

text \<open>
  A product that is rounded up: \<^verbatim>\<open>3 * 0.1\<close> is \<^verbatim>\<open>0.30000000000000004\<close>, so a count of that
  value is not above the threshold of a peak of height 3 at the level \<^verbatim>\<open>0.1\<close>.
\<close>

lemma mul64_rounded_up:
  "mul64 3 (3602879701896397 / 36028797018963968) = Finite (1351079888211149 / 4503599627370496)"
  "np_where_gt [3, 1351079888211149 / 4503599627370496]
     (mul64 3 (3602879701896397 / 36028797018963968)) = [0]"
proof -
  show m: "mul64 3 (3602879701896397 / 36028797018963968) = Finite (1351079888211149 / 4503599627370496)"
    by (simp add: float64_defs)
  show "np_where_gt [3, 1351079888211149 / 4503599627370496]
     (mul64 3 (3602879701896397 / 36028797018963968)) = [0]"
    unfolding m by (simp add: np_where_gt_def exceeds_def)
qed

lemmas get_cut_eval = get_cut_def np_argmax_def np_where_gt_def exceeds_def np_arange_rec
  py_round_def Let_def mul64_values

subsection \<open>Properties of the cut extractor\<close>

text \<open>
  Claim C1, as amended.  For a non-empty array whose maximum is strictly positive and lies
  strictly above the float64 product of the maximum and the threshold level, a threshold
  level strictly between 0 and 1 and a positive width multiplier, \<^verbatim>\<open>get_cut\<close> returns, and
  the cut it returns is non-empty, contiguous (it is the integer interval from its first to
  its last element), contained in \<open>[0, len(data))\<close>, and holds the peak index, which is the
  position \<^verbatim>\<open>np.argmax\<close> finds.
\<close>

theorem get_cut_containment:
  assumes "data \<noteq> []" and "0 < Max (set data)"
    and "0 < threshold_level" and "threshold_level < 1" and "0 < cut_width_mult"
    and "exceeds (Max (set data)) (mul64 (Max (set data)) threshold_level)"
  shows "\<exists>cut_inds threshold_width peak_ind peak.
           get_cut data threshold_level cut_width_mult = Inr (cut_inds, threshold_width, int peak_ind, peak) \<and>
           np_argmax data = Inr peak_ind \<and>
           cut_inds \<noteq> [] \<and> cut_inds = [hd cut_inds..last cut_inds] \<and>
           set cut_inds \<subseteq> {0..<int (length data)} \<and> int peak_ind \<in> set cut_inds"
proof -
  from np_argmax_Inr [OF assms(1)] obtain p where
    am: "np_argmax data = Inr p" and pn: "p < length data" and pk: "data ! p = Max (set data)"
    by blast
  let ?inds = "np_where_gt data (mul64 (data ! p) threshold_level)"
  from assms(6) pk pn have "p \<in> set ?inds" by (simp add: set_np_where_gt)
  then have ne: "?inds \<noteq> []" by auto
  let ?lo = "py_round (max 0 (real p - cut_width_mult * (real p - real (hd ?inds))))"
  let ?hi = "py_round (min (real (length data))
               (real p + cut_width_mult * (real (last ?inds) - real p) + 1))"
  from assms(5) have m0: "0 \<le> cut_width_mult" by simp
  note b = cut_bounds [OF am ne m0]
  from b have lt: "?lo < ?hi" by linarith
  have gc: "get_cut data threshold_level cut_width_mult =
      Inr (np_arange ?lo ?hi, int (last ?inds) - int (hd ?inds), int p, data ! p)"
    by (rule get_cut_Inr [OF am ne])
  have "np_arange ?lo ?hi = [hd (np_arange ?lo ?hi)..last (np_arange ?lo ?hi)]"
    using np_arange_nonempty [OF lt] by (simp add: np_arange_def)
  moreover have "set (np_arange ?lo ?hi) \<subseteq> {0..<int (length data)}"
    using b by (auto simp: np_arange_set)
  moreover have "int p \<in> set (np_arange ?lo ?hi)"
    using b by (auto simp: np_arange_set)
  ultimately show ?thesis using gc am np_arange_nonempty(1) [OF lt] by blast
qed

theorem get_cut_containment_witness:
  "[1, 2, 5, 9, 10, 9, 5, 2, 1] \<noteq> ([]::real list) \<and> (0::real) < Max (set [1, 2, 5, 9, 10, 9, 5, 2, 1]) \<and>
   (0::real) < 1 / 2 \<and> (1::real) / 2 < 1 \<and> (0::real) < 17 / 10 \<and>
   exceeds (Max (set [1, 2, 5, 9, 10, 9, 5, 2, 1])) (mul64 (Max (set [1, 2, 5, 9, 10, 9, 5, 2, 1])) (1 / 2)) \<and>
   (\<exists>cut_inds threshold_width peak_ind peak.
      get_cut [1, 2, 5, 9, 10, 9, 5, 2, 1] (1 / 2) (17 / 10) = Inr (cut_inds, threshold_width, int peak_ind, peak) \<and>
      np_argmax [1, 2, 5, 9, 10, 9, 5, 2, 1] = Inr peak_ind \<and>
      cut_inds \<noteq> [] \<and> cut_inds = [hd cut_inds..last cut_inds] \<and>
      set cut_inds \<subseteq> {0..<int (length [1, 2, 5, 9, 10, 9, 5, 2, 1 :: real])} \<and> int peak_ind \<in> set cut_inds)"
proof -
  have h: "exceeds (Max (set [1, 2, 5, 9, 10, 9, 5, 2, 1])) (mul64 (Max (set [1, 2, 5, 9, 10, 9, 5, 2, 1])) (1 / 2))"
    by (simp add: mul64_values exceeds_def)
  from get_cut_containment [of "[1, 2, 5, 9, 10, 9, 5, 2, 1]" "1 / 2" "17 / 10", OF _ _ _ _ _ h] h
  show ?thesis by simp
qed

theorem get_cut_subnormal_counterexample:
  "[example_subnormal] \<noteq> [] \<and> 0 < Max (set [example_subnormal]) \<and>
   0 < example_level \<and> example_level < 1 \<and> (0::real) < 17 / 10 \<and>
   get_cut [example_subnormal] example_level (17 / 10) =
     Inl (IndexError ''index -1 is out of bounds for axis 0 with size 0'')"
  by (simp add: get_cut_def np_argmax_def np_where_gt_def exceeds_def mul64_subnormal
      example_subnormal_pos example_level_bounds)

text \<open>
  Claim C5.  With the data and the threshold level fixed, a larger width multiplier never
  shrinks the cut: when \<^verbatim>\<open>get_cut\<close> returns for \<open>m1\<close> and \<open>m1 \<le> m2\<close>, it returns for
  \<open>m2\<close> too, with the same threshold width, peak index and peak value, and every index of the
  first cut is an index of the second.
\<close>

theorem get_cut_monotone:
  assumes "m1 \<le> m2" and "get_cut data threshold_level m1 = Inr (cut1, threshold_width, peak_ind, peak)"
  shows "\<exists>cut2. get_cut data threshold_level m2 = Inr (cut2, threshold_width, peak_ind, peak) \<and>
           set cut1 \<subseteq> set cut2"
proof -
  from get_cut_InrD [OF assms(2)] obtain p where
    am: "np_argmax data = Inr p" and ne: "np_where_gt data (mul64 (data ! p) threshold_level) \<noteq> []"
    by blast
  let ?inds = "np_where_gt data (mul64 (data ! p) threshold_level)"
  from peak_qualifies [OF am ne] have pin: "p \<in> set ?inds" .
  from np_where_gt_bounds [OF pin] have fp: "hd ?inds \<le> p" and pl: "p \<le> last ?inds" by simp_all
  let ?lo = "\<lambda>m. py_round (max 0 (real p - m * (real p - real (hd ?inds))))"
  let ?hi = "\<lambda>m. py_round (min (real (length data)) (real p + m * (real (last ?inds) - real p) + 1))"
  have "m1 * (real p - real (hd ?inds)) \<le> m2 * (real p - real (hd ?inds))"
    using assms(1) fp by (intro mult_right_mono) simp_all
  then have lo: "?lo m2 \<le> ?lo m1" by (intro py_round_mono) (simp add: max.coboundedI2)
  have "m1 * (real (last ?inds) - real p) \<le> m2 * (real (last ?inds) - real p)"
    using assms(1) pl by (intro mult_right_mono) simp_all
  then have hi: "?hi m1 \<le> ?hi m2" by (intro py_round_mono) (simp add: min.coboundedI2)
  from get_cut_Inr [OF am ne, of m1] assms(2)
  have c1: "cut1 = np_arange (?lo m1) (?hi m1)"
    and r: "threshold_width = int (last ?inds) - int (hd ?inds)" "peak_ind = int p" "peak = data ! p"
    by simp_all
  have "set (np_arange (?lo m1) (?hi m1)) \<subseteq> set (np_arange (?lo m2) (?hi m2))"
    using lo hi by (auto simp: np_arange_set)
  with get_cut_Inr [OF am ne, of m2] c1 r show ?thesis by simp
qed

theorem get_cut_monotone_witness:
  "(1::real) \<le> 17 / 10 \<and> get_cut [1, 2, 5, 9, 10, 9, 5, 2, 1] (1 / 2) 1 = Inr ([3, 4, 5], 2, 4, 10) \<and>
   (\<exists>cut2. get_cut [1, 2, 5, 9, 10, 9, 5, 2, 1] (1 / 2) (17 / 10) = Inr (cut2, 2, 4, 10) \<and>
       set [3, 4, 5] \<subseteq> set cut2)"
proof -
  have h1: "(1::real) \<le> 17 / 10" by simp
  have h2: "get_cut [1, 2, 5, 9, 10, 9, 5, 2, 1] (1 / 2) 1 = Inr ([3, 4, 5], 2, 4, 10)"
    by (simp add: get_cut_eval)
  from get_cut_monotone [OF h1 h2] h1 h2 show ?thesis by blast
qed

text \<open>
  Claim C2, as amended.  For a non-empty array the set of positions above the threshold,
  the float64 product \<open>peak * threshold_level\<close>, is non-empty exactly when the peak itself lies
  strictly above that rounded product, and then \<^verbatim>\<open>get_cut\<close> returns; otherwise, as on an
  all-zero array and on a peak so small that the product rounds back up to it, the set is
  empty and \<^verbatim>\<open>get_cut\<close> raises IndexError at \<^verbatim>\<open>threshold_inds[-1]\<close>.  When exactly one
  position lies above the threshold, the threshold width is 0 and the cut is that single
  position.
\<close>

theorem get_cut_raises_iff:
  assumes "data \<noteq> []"
  shows "(if exceeds (Max (set data)) (mul64 (Max (set data)) threshold_level)
          then np_where_gt data (mul64 (Max (set data)) threshold_level) \<noteq> [] \<and>
               (\<exists>r. get_cut data threshold_level cut_width_mult = Inr r)
          else np_where_gt data (mul64 (Max (set data)) threshold_level) = [] \<and>
               get_cut data threshold_level cut_width_mult =
                 Inl (IndexError ''index -1 is out of bounds for axis 0 with size 0'')) \<and>
         (\<forall>q. np_where_gt data (mul64 (Max (set data)) threshold_level) = [q] \<longrightarrow>
               get_cut data threshold_level cut_width_mult = Inr ([int q], 0, int q, Max (set data)))"
proof -
  from np_argmax_Inr [OF assms] obtain p where
    am: "np_argmax data = Inr p" and pn: "p < length data" and pk: "data ! p = Max (set data)"
    by blast
  let ?inds = "np_where_gt data (mul64 (Max (set data)) threshold_level)"
  have A: "?inds \<noteq> [] \<and> (\<exists>r. get_cut data threshold_level cut_width_mult = Inr r)"
    if "exceeds (Max (set data)) (mul64 (Max (set data)) threshold_level)"
  proof -
    from that pn pk have "p \<in> set ?inds" by (simp add: set_np_where_gt)
    then have ne: "?inds \<noteq> []" by auto
    with get_cut_Inr [OF am, of threshold_level cut_width_mult] pk show ?thesis by simp
  qed
  have B: "?inds = [] \<and> get_cut data threshold_level cut_width_mult =
             Inl (IndexError ''index -1 is out of bounds for axis 0 with size 0'')"
    if "\<not> exceeds (Max (set data)) (mul64 (Max (set data)) threshold_level)"
  proof -
    have "?inds = []"
    proof (rule ccontr)
      assume ne: "?inds \<noteq> []"
      with peak_qualifies [OF am, of threshold_level] pk have "p \<in> set ?inds" by simp
      with that pk show False by (simp add: set_np_where_gt)
    qed
    then show ?thesis using am pk by (simp add: get_cut_def Let_def)
  qed
  have C: "get_cut data threshold_level cut_width_mult = Inr ([int q], 0, int q, Max (set data))"
    if "?inds = [q]" for q
    using singleton_cut [OF am, of threshold_level q cut_width_mult] that pk by simp
  from A B C show ?thesis by simp
qed

theorem get_cut_raises_iff_witness:
  "[10, 5, 2, 1] \<noteq> ([]::real list) \<and>
   exceeds (Max (set [10, 5, 2, 1])) (mul64 (Max (set [10, 5, 2, 1])) (1 / 2)) \<and>
   np_where_gt [10, 5, 2, 1] (mul64 (Max (set [10, 5, 2, 1])) (1 / 2)) = [0] \<and>
   get_cut [10, 5, 2, 1] (1 / 2) (17 / 10) = Inr ([0], 0, 0, 10) \<and>
   [0, 0, 0] \<noteq> ([]::real list) \<and>
   \<not> exceeds (Max (set [0, 0, 0])) (mul64 (Max (set [0, 0, 0])) (1 / 2)) \<and>
   get_cut [0, 0, 0] (1 / 2) (17 / 10) =
     Inl (IndexError ''index -1 is out of bounds for axis 0 with size 0'') \<and>
   \<not> exceeds (Max (set [example_subnormal])) (mul64 (Max (set [example_subnormal])) example_level) \<and>
   get_cut [example_subnormal] example_level (17 / 10) =
     Inl (IndexError ''index -1 is out of bounds for axis 0 with size 0'')"
proof -
  have h: "np_where_gt [10, 5, 2, 1] (mul64 (Max (set [10, 5, 2, 1])) (1 / 2)) = [0]"
    by (simp add: np_where_gt_def mul64_values exceeds_def)
  have e1: "exceeds (Max (set [10, 5, 2, 1])) (mul64 (Max (set [10, 5, 2, 1])) (1 / 2))"
    by (simp add: mul64_values exceeds_def)
  have e2: "\<not> exceeds (Max (set [0, 0, 0])) (mul64 (Max (set [0, 0, 0])) (1 / 2))"
    by (simp add: mul64_values exceeds_def)
  have e3: "\<not> exceeds (Max (set [example_subnormal])) (mul64 (Max (set [example_subnormal])) example_level)"
    by (simp add: mul64_subnormal exceeds_def)
  from get_cut_raises_iff [of "[10, 5, 2, 1]" "1 / 2" "17 / 10"] h e1
  have g1: "get_cut [10, 5, 2, 1] (1 / 2) (17 / 10) = Inr ([0], 0, 0, 10)" by simp
  from get_cut_raises_iff [of "[0, 0, 0]" "1 / 2" "17 / 10"] e2
  have g2: "get_cut [0, 0, 0] (1 / 2) (17 / 10) =
     Inl (IndexError ''index -1 is out of bounds for axis 0 with size 0'')" by simp
  from get_cut_raises_iff [of "[example_subnormal]" example_level "17 / 10"] e3
  have g3: "get_cut [example_subnormal] example_level (17 / 10) =
     Inl (IndexError ''index -1 is out of bounds for axis 0 with size 0'')" by simp
  from h e1 e2 e3 g1 g2 g3 show ?thesis by simp
qed

theorem get_cut_degenerate_counterexample:
  "get_cut [0, 0, 0] (1 / 2) (17 / 10) =
     Inl (IndexError ''index -1 is out of bounds for axis 0 with size 0'') \<and>
   np_where_gt [0, 0, 0] (mul64 0 (1 / 2)) = [] \<and>
   get_cut [5, 5, 5] (1 / 2) (17 / 10) = Inr ([0, 1, 2], 2, 0, 5)"
  by (simp add: get_cut_eval)

subsection \<open>Facts about the two-stage fitter\<close>

lemma np_any_iff: "np_any m \<longleftrightarrow> (\<exists>row \<in> set m. \<exists>v \<in> set row. v \<noteq> Finite 0)"
  by (simp add: np_any_def list_ex_iff truthy_def)

lemma np_any_isinf_iff: "np_any_isinf m \<longleftrightarrow> (\<exists>row \<in> set m. \<exists>v \<in> set row. v = PInf \<or> v = NInf)"
  by (simp add: np_any_isinf_def list_ex_iff np_isinf_def)

lemmas prog_defs = pbind_def ret_def raise_def lift_def emit_def pwhen_def

text \<open>The run of the fitter after both solvers have returned.\<close>
lemma fit_odr_run:
  assumes "curve_fit E func x y p0 std_y = Inr (seed, seed_cov)"
    and "odr_run E (func_odr func) x y std_x std_y seed = Inr out"
  shows "fit_odr E func x y std_x std_y p0 debug w =
     (Inr (if np_any (cov_beta out) then (beta out, cov_beta out) else (seed, seed_cov)),
      w\<lparr>trace := trace w @ [Curve_fit_call x y p0 std_y] @
           (if np_any_isinf seed_cov
            then [Print least_squares_warning]
            else []) @
           [Odr_run_call x y std_x std_y seed] @
           (if debug then map Print (pprint out) else []) @
           (if np_any (cov_beta out) then []
            else [Print odr_warning])\<rparr>)"
  using assms by (simp add: fit_odr_def prog_defs)

lemma fit_odr_curve_fit_raises:
  assumes "curve_fit E func x y p0 std_y = Inl msg"
  shows "fit_odr E func x y std_x std_y p0 debug w =
     (Inl (SolverError msg), w\<lparr>trace := trace w @ [Curve_fit_call x y p0 std_y]\<rparr>)"
  using assms by (simp add: fit_odr_def prog_defs)

lemma fit_odr_odr_raises:
  assumes "curve_fit E func x y p0 std_y = Inr (seed, seed_cov)"
    and "odr_run E (func_odr func) x y std_x std_y seed = Inl msg"
  shows "fit_odr E func x y std_x std_y p0 debug w =
     (Inl (SolverError msg),
      w\<lparr>trace := trace w @ [Curve_fit_call x y p0 std_y] @
           (if np_any_isinf seed_cov
            then [Print least_squares_warning]
            else []) @
           [Odr_run_call x y std_x std_y seed]\<rparr>)"
  using assms by (simp add: fit_odr_def prog_defs)

lemma fit_odr_cases:
  obtains (curve_fit_raises) msg where "curve_fit E func x y p0 std_y = Inl msg"
  | (odr_raises) seed seed_cov msg where "curve_fit E func x y p0 std_y = Inr (seed, seed_cov)"
      "odr_run E (func_odr func) x y std_x std_y seed = Inl msg"
  | (returns) seed seed_cov out where "curve_fit E func x y p0 std_y = Inr (seed, seed_cov)"
      "odr_run E (func_odr func) x y std_x std_y seed = Inr out"
proof (cases "curve_fit E func x y p0 std_y")
  case (Inl msg)
  then show ?thesis by (rule curve_fit_raises)
next
  case (Inr fit)
  obtain seed seed_cov where f: "fit = (seed, seed_cov)" by (cases fit)
  show ?thesis
  proof (cases "odr_run E (func_odr func) x y std_x std_y seed")
    case (Inl msg)
    with Inr f show ?thesis by (intro odr_raises) simp_all
  next
    case (Inr out)
    with \<open>curve_fit E func x y p0 std_y = Inr fit\<close> f show ?thesis by (intro returns) simp_all
  qed
qed

lemma fit_odr_heap: "heap (snd (fit_odr E func x y std_x std_y p0 debug w)) = heap w"
  by (cases rule: fit_odr_cases [where E=E and func=func and x=x and y=y and ?p0.0=p0 and std_y=std_y and std_x=std_x])
     (simp_all add: fit_odr_run fit_odr_curve_fit_raises fit_odr_odr_raises)

lemma fit_odr_error:
  assumes "fst (fit_odr E func x y std_x std_y p0 debug w) = Inl e"
  shows "\<exists>msg. e = SolverError msg"
  using assms
  by (cases rule: fit_odr_cases [where E=E and func=func and x=x and y=y and ?p0.0=p0 and std_y=std_y and std_x=std_x])
     (auto simp: fit_odr_run fit_odr_curve_fit_raises fit_odr_odr_raises)

text \<open>The value a run returns does not depend on the world it starts from.\<close>
lemma fit_odr_fst: "fst (fit_odr E func x y std_x std_y p0 debug w) = fst (fit_odr E func x y std_x std_y p0 debug w')"
  by (cases rule: fit_odr_cases [where E=E and func=func and x=x and y=y and ?p0.0=p0 and std_y=std_y and std_x=std_x])
     (simp_all add: fit_odr_run fit_odr_curve_fit_raises fit_odr_odr_raises)

subsection \<open>Properties of the two-stage fitter\<close>

text \<open>
  Claim C3.  When both solvers return and every entry of the refinement's covariance matrix
  is zero, \<^verbatim>\<open>fit_odr\<close> returns exactly the parameters and the covariance of the
  least-squares stage, not the refined parameters, and the last thing it does is print the
  warning that it reverts to the \<^verbatim>\<open>curve_fit\<close> results; no exception is raised.
\<close>

theorem fit_odr_fallback:
  assumes "curve_fit E func x y p0 std_y = Inr (seed, seed_cov)"
    and "odr_run E (func_odr func) x y std_x std_y seed = Inr out"
    and "\<forall>row \<in> set (cov_beta out). \<forall>v \<in> set row. v = Finite 0"
  shows "fit_odr E func x y std_x std_y p0 debug w =
           (Inr (seed, seed_cov),
            w\<lparr>trace := trace w @ [Curve_fit_call x y p0 std_y] @
              (if np_any_isinf seed_cov then [Print least_squares_warning] else []) @
              [Odr_run_call x y std_x std_y seed] @
              (if debug then map Print (pprint out) else []) @
              [Print odr_warning]\<rparr>)"
proof -
  from assms(3) have "\<not> np_any (cov_beta out)" by (simp add: np_any_iff)
  with fit_odr_run [OF assms(1,2), of debug w] show ?thesis by simp
qed

theorem fit_odr_fallback_witness:
  "curve_fit (example_solvers [[Finite 1]] [[Finite 0, Finite 0], [Finite 0, Finite 0]])
      (\<lambda>x c. 0) [0, 1, 2] [1, 2, 1] (Some [2, 1, 1]) None = Inr ([2, 1, 1], [[Finite 1]]) \<and>
   odr_run (example_solvers [[Finite 1]] [[Finite 0, Finite 0], [Finite 0, Finite 0]])
      (func_odr (\<lambda>x c. 0)) [0, 1, 2] [1, 2, 1] None None [2, 1, 1] =
     Inr \<lparr>beta = [3, 2, 2], cov_beta = [[Finite 0, Finite 0], [Finite 0, Finite 0]], pprint = [''Beta:'']\<rparr> \<and>
   fit_odr (example_solvers [[Finite 1]] [[Finite 0, Finite 0], [Finite 0, Finite 0]])
      (\<lambda>x c. 0) [0, 1, 2] [1, 2, 1] None None (Some [2, 1, 1]) False \<lparr>heap = [], trace = []\<rparr> =
     (Inr ([2, 1, 1], [[Finite 1]]),
      \<lparr>heap = [], trace = [Curve_fit_call [0, 1, 2] [1, 2, 1] (Some [2, 1, 1]) None,
         Odr_run_call [0, 1, 2] [1, 2, 1] None None [2, 1, 1], Print odr_warning]\<rparr>)"
proof -
  let ?E = "example_solvers [[Finite 1]] [[Finite 0, Finite 0], [Finite 0, Finite 0]]"
  let ?out = "\<lparr>beta = [3, 2, 2], cov_beta = [[Finite 0, Finite 0], [Finite 0, Finite 0]], pprint = [''Beta:'']\<rparr>"
  have h1: "curve_fit ?E (\<lambda>x c. 0) [0, 1, 2] [1, 2, 1] (Some [2, 1, 1]) None = Inr ([2, 1, 1], [[Finite 1]])"
    by (simp add: example_solvers_def)
  have h2: "odr_run ?E (func_odr (\<lambda>x c. 0)) [0, 1, 2] [1, 2, 1] None None [2, 1, 1] = Inr ?out"
    by (simp add: example_solvers_def)
  have h3: "\<forall>row \<in> set (cov_beta ?out). \<forall>v \<in> set row. v = Finite 0" by simp
  from fit_odr_fallback [OF h1 h2 h3, of False "\<lparr>heap = [], trace = []\<rparr>"] h1 h2
  show ?thesis by (simp add: np_any_isinf_def np_isinf_def)
qed

text \<open>
  Claim C8, as amended.  When the least-squares stage returns, the whole trace of
  \<^verbatim>\<open>fit_odr\<close> is: the call of the least-squares solver; the warning about its covariances
  exactly when some entry of the seed covariance is an infinity (\<^verbatim>\<open>np.isinf\<close>; an entry
  that is NaN does not count); the call of the refinement, started from the seed parameters;
  and, if the refinement returns, its report when \<open>debug\<close> is set and the fallback warning
  when its covariance is all zero.  So execution continues in both cases, and without
  \<open>debug\<close> the warning about the least-squares covariances is among the events of the call
  exactly when some entry of the seed covariance is an infinity.
\<close>

theorem fit_odr_seed_warning:
  assumes "curve_fit E func x y p0 std_y = Inr (seed, seed_cov)"
  shows "trace (snd (fit_odr E func x y std_x std_y p0 debug w)) =
           trace w @ [Curve_fit_call x y p0 std_y] @
           (if \<exists>row \<in> set seed_cov. \<exists>v \<in> set row. v = PInf \<or> v = NInf
            then [Print least_squares_warning] else []) @
           [Odr_run_call x y std_x std_y seed] @
           (case odr_run E (func_odr func) x y std_x std_y seed of
              Inl msg \<Rightarrow> []
            | Inr out \<Rightarrow>
                (if debug then map Print (pprint out) else []) @
                (if np_any (cov_beta out) then [] else [Print odr_warning])) \<and>
         (\<not> debug \<longrightarrow>
            (Print least_squares_warning \<in>
               set (drop (length (trace w)) (trace (snd (fit_odr E func x y std_x std_y p0 debug w)))) \<longleftrightarrow>
             (\<exists>row \<in> set seed_cov. \<exists>v \<in> set row. v = PInf \<or> v = NInf)))"
proof -
  have ne: "odr_warning \<noteq> least_squares_warning"
    by (simp add: odr_warning_def least_squares_warning_def)
  have T: "trace (snd (fit_odr E func x y std_x std_y p0 d w)) =
           trace w @ [Curve_fit_call x y p0 std_y] @
           (if \<exists>row \<in> set seed_cov. \<exists>v \<in> set row. v = PInf \<or> v = NInf
            then [Print least_squares_warning] else []) @
           [Odr_run_call x y std_x std_y seed] @
           (case odr_run E (func_odr func) x y std_x std_y seed of
              Inl msg \<Rightarrow> []
            | Inr out \<Rightarrow>
                (if d then map Print (pprint out) else []) @
                (if np_any (cov_beta out) then [] else [Print odr_warning]))" for d
  proof (cases "odr_run E (func_odr func) x y std_x std_y seed")
    case (Inl msg)
    from fit_odr_odr_raises [OF assms Inl, of d w] Inl show ?thesis
      by (simp add: np_any_isinf_iff)
  next
    case (Inr out)
    from fit_odr_run [OF assms Inr, of d w] Inr show ?thesis
      by (simp add: np_any_isinf_iff)
  qed
  have "Print least_squares_warning \<in>
          set (drop (length (trace w)) (trace (snd (fit_odr E func x y std_x std_y p0 False w)))) \<longleftrightarrow>
        (\<exists>row \<in> set seed_cov. \<exists>v \<in> set row. v = PInf \<or> v = NInf)"
    unfolding T [of False] using ne by (simp split: sum.splits)
  with T [of debug] show ?thesis by (cases debug) simp_all
qed

theorem fit_odr_seed_warning_witness:
  "curve_fit (example_solvers [[Finite 1, PInf]] [[Finite 2]])
      (\<lambda>x c. 0) [0, 1, 2] [1, 2, 1] (Some [2, 1, 1]) None = Inr ([2, 1, 1], [[Finite 1, PInf]]) \<and>
   trace (snd (fit_odr (example_solvers [[Finite 1, PInf]] [[Finite 2]])
      (\<lambda>x c. 0) [0, 1, 2] [1, 2, 1] None None (Some [2, 1, 1]) False \<lparr>heap = [], trace = []\<rparr>)) =
      [Curve_fit_call [0, 1, 2] [1, 2, 1] (Some [2, 1, 1]) None, Print least_squares_warning,
       Odr_run_call [0, 1, 2] [1, 2, 1] None None [2, 1, 1]] \<and>
   curve_fit (example_solvers [[Finite 1, NaN]] [[Finite 2]])
      (\<lambda>x c. 0) [0, 1, 2] [1, 2, 1] (Some [2, 1, 1]) None = Inr ([2, 1, 1], [[Finite 1, NaN]]) \<and>
   trace (snd (fit_odr (example_solvers [[Finite 1, NaN]] [[Finite 2]])
      (\<lambda>x c. 0) [0, 1, 2] [1, 2, 1] None None (Some [2, 1, 1]) False \<lparr>heap = [], trace = []\<rparr>)) =
      [Curve_fit_call [0, 1, 2] [1, 2, 1] (Some [2, 1, 1]) None,
       Odr_run_call [0, 1, 2] [1, 2, 1] None None [2, 1, 1]] \<and>
   Print least_squares_warning \<in> set (drop (length (trace \<lparr>heap = [], trace = []\<rparr>))
     (trace (snd (fit_odr (example_solvers [[Finite 1, PInf]] [[Finite 2]])
        (\<lambda>x c. 0) [0, 1, 2] [1, 2, 1] None None (Some [2, 1, 1]) False \<lparr>heap = [], trace = []\<rparr>)))) \<and>
   Print least_squares_warning \<notin> set (drop (length (trace \<lparr>heap = [], trace = []\<rparr>))
     (trace (snd (fit_odr (example_solvers [[Finite 1, NaN]] [[Finite 2]])
        (\<lambda>x c. 0) [0, 1, 2] [1, 2, 1] None None (Some [2, 1, 1]) False \<lparr>heap = [], trace = []\<rparr>))))"
proof -
  let ?E = "example_solvers [[Finite 1, PInf]] [[Finite 2]]"
  let ?E2 = "example_solvers [[Finite 1, NaN]] [[Finite 2]]"
  have h1: "curve_fit ?E (\<lambda>x c. 0) [0, 1, 2] [1, 2, 1] (Some [2, 1, 1]) None = Inr ([2, 1, 1], [[Finite 1, PInf]])"
    by (simp add: example_solvers_def)
  have h2: "curve_fit ?E2 (\<lambda>x c. 0) [0, 1, 2] [1, 2, 1] (Some [2, 1, 1]) None = Inr ([2, 1, 1], [[Finite 1, NaN]])"
    by (simp add: example_solvers_def)
  have o1: "odr_run ?E (func_odr (\<lambda>x c. 0)) [0, 1, 2] [1, 2, 1] None None [2, 1, 1] =
      Inr \<lparr>beta = [3, 2, 2], cov_beta = [[Finite 2]], pprint = [''Beta:'']\<rparr>"
    by (simp add: example_solvers_def)
  have o2: "odr_run ?E2 (func_odr (\<lambda>x c. 0)) [0, 1, 2] [1, 2, 1] None None [2, 1, 1] =
      Inr \<lparr>beta = [3, 2, 2], cov_beta = [[Finite 2]], pprint = [''Beta:'']\<rparr>"
    by (simp add: example_solvers_def)
  from fit_odr_seed_warning [OF h1, of None False "\<lparr>heap = [], trace = []\<rparr>", THEN conjunct1]
  have t1: "trace (snd (fit_odr ?E (\<lambda>x c. 0) [0, 1, 2] [1, 2, 1] None None (Some [2, 1, 1]) False
      \<lparr>heap = [], trace = []\<rparr>)) =
      [Curve_fit_call [0, 1, 2] [1, 2, 1] (Some [2, 1, 1]) None, Print least_squares_warning,
       Odr_run_call [0, 1, 2] [1, 2, 1] None None [2, 1, 1]]"
    by (simp add: o1 np_any_def truthy_def)
  from fit_odr_seed_warning [OF h2, of None False "\<lparr>heap = [], trace = []\<rparr>", THEN conjunct1]
  have t2: "trace (snd (fit_odr ?E2 (\<lambda>x c. 0) [0, 1, 2] [1, 2, 1] None None (Some [2, 1, 1]) False
      \<lparr>heap = [], trace = []\<rparr>)) =
      [Curve_fit_call [0, 1, 2] [1, 2, 1] (Some [2, 1, 1]) None,
       Odr_run_call [0, 1, 2] [1, 2, 1] None None [2, 1, 1]]"
    by (simp add: o2 np_any_def truthy_def)
  from fit_odr_seed_warning [OF h1, of None False "\<lparr>heap = [], trace = []\<rparr>", THEN conjunct2]
  have m1: "Print least_squares_warning \<in> set (drop (length (trace \<lparr>heap = [], trace = []\<rparr>))
     (trace (snd (fit_odr ?E (\<lambda>x c. 0) [0, 1, 2] [1, 2, 1] None None (Some [2, 1, 1]) False
        \<lparr>heap = [], trace = []\<rparr>))))"
    by simp
  from fit_odr_seed_warning [OF h2, of None False "\<lparr>heap = [], trace = []\<rparr>", THEN conjunct2]
  have m2: "Print least_squares_warning \<notin> set (drop (length (trace \<lparr>heap = [], trace = []\<rparr>))
     (trace (snd (fit_odr ?E2 (\<lambda>x c. 0) [0, 1, 2] [1, 2, 1] None None (Some [2, 1, 1]) False
        \<lparr>heap = [], trace = []\<rparr>))))"
    by simp
  from h1 h2 t1 t2 m1 m2 show ?thesis by (intro conjI)
qed

theorem fit_odr_nan_counterexample:
  "\<not> np_isfinite NaN \<and>
   fit_odr (example_solvers [[NaN]] [[Finite 2]])
      (\<lambda>x c. 0) [0, 1, 2] [1, 2, 1] None None (Some [2, 1, 1]) False \<lparr>heap = [], trace = []\<rparr> =
     (Inr ([3, 2, 2], [[Finite 2]]),
      \<lparr>heap = [], trace = [Curve_fit_call [0, 1, 2] [1, 2, 1] (Some [2, 1, 1]) None,
         Odr_run_call [0, 1, 2] [1, 2, 1] None None [2, 1, 1]]\<rparr>)"
  by (simp add: fit_odr_def prog_defs example_solvers_def np_isfinite_def np_any_isinf_def
      np_isinf_def np_any_def truthy_def)

subsection \<open>Facts about the Gaussian MCA fit\<close>

lemma fit_mca_gaussian_unconfigured:
  assumes "diff_nonlin mca = None \<or> int_nonlin mca = None"
  shows "fit_mca_gaussian E mca inds cnts peak peak_ind threshold_width w =
           (Inl (ValueError ''The MCA measurement should have nonlinearities configured''), w)"
  using assms by (simp add: fit_mca_gaussian_def raise_def)

lemma fit_mca_gaussian_configured:
  assumes "diff_nonlin mca = Some dn" and "int_nonlin mca = Some inl"
  shows "fit_mca_gaussian E mca inds cnts peak peak_ind threshold_width w =
     (case np_mul (heap w ! inl) cnts of
        Inl e \<Rightarrow> (Inl e, w)
      | Inr std_y \<Rightarrow>
          fit_odr E (gaussian_scaled E) (map real_of_int inds) cnts (Some (heap w ! dn)) (Some std_y)
            (Some [peak, real_of_int peak_ind, 0.4 * real_of_int threshold_width]) False w)"
  using assms by (simp add: fit_mca_gaussian_def pbind_def lift_def split: sum.splits)

lemma np_mul_error: "np_mul a b = Inl e \<Longrightarrow> e = ValueError ''operands could not be broadcast together''"
  by (auto simp: np_mul_def split: if_splits)

subsection \<open>Properties of the Gaussian MCA fit\<close>

text \<open>
  Claim C4.  When the differential or the integral nonlinearity array of the spectrum is
  absent, \<^verbatim>\<open>fit_mca_gaussian\<close> raises the configuration error (in the program a
  \<^verbatim>\<open>ValueError\<close> with the message that the nonlinearities should be configured) and leaves
  the world as it was: no solver has been called.  When both arrays are present, that error
  is not raised.
\<close>

theorem fit_mca_gaussian_precondition:
  "(diff_nonlin mca = None \<or> int_nonlin mca = None \<longrightarrow>
      fit_mca_gaussian E mca inds cnts peak peak_ind threshold_width w =
        (Inl (ValueError ''The MCA measurement should have nonlinearities configured''), w)) \<and>
   (diff_nonlin mca \<noteq> None \<and> int_nonlin mca \<noteq> None \<longrightarrow>
      fst (fit_mca_gaussian E mca inds cnts peak peak_ind threshold_width w) \<noteq>
        Inl (ValueError ''The MCA measurement should have nonlinearities configured''))"
proof (intro conjI impI)
  assume "diff_nonlin mca = None \<or> int_nonlin mca = None"
  then show "fit_mca_gaussian E mca inds cnts peak peak_ind threshold_width w =
        (Inl (ValueError ''The MCA measurement should have nonlinearities configured''), w)"
    by (rule fit_mca_gaussian_unconfigured)
next
  assume "diff_nonlin mca \<noteq> None \<and> int_nonlin mca \<noteq> None"
  then obtain dn inl where c: "diff_nonlin mca = Some dn" "int_nonlin mca = Some inl" by auto
  show "fst (fit_mca_gaussian E mca inds cnts peak peak_ind threshold_width w) \<noteq>
        Inl (ValueError ''The MCA measurement should have nonlinearities configured'')"
  proof (cases "np_mul (heap w ! inl) cnts")
    case (Inl e)
    with np_mul_error [OF Inl] show ?thesis
      by (simp add: fit_mca_gaussian_configured [OF c])
  next
    case (Inr std_y)
    show ?thesis
    proof
      assume "fst (fit_mca_gaussian E mca inds cnts peak peak_ind threshold_width w) =
        Inl (ValueError ''The MCA measurement should have nonlinearities configured'')"
      with Inr have "fst (fit_odr E (gaussian_scaled E) (map real_of_int inds) cnts (Some (heap w ! dn))
            (Some std_y) (Some [peak, real_of_int peak_ind, 0.4 * real_of_int threshold_width]) False w) =
        Inl (ValueError ''The MCA measurement should have nonlinearities configured'')"
        by (simp add: fit_mca_gaussian_configured [OF c])
      from fit_odr_error [OF this] show False by simp
    qed
  qed
qed

theorem fit_mca_gaussian_precondition_witness:
  "(diff_nonlin \<lparr>counts = 0, channels = 1, diff_nonlin = Some 2, int_nonlin = None\<rparr> = None \<or>
    int_nonlin \<lparr>counts = 0, channels = 1, diff_nonlin = Some 2, int_nonlin = None\<rparr> = None) \<and>
   fit_mca_gaussian (example_solvers [[Finite 1]] [[Finite 2]])
      \<lparr>counts = 0, channels = 1, diff_nonlin = Some 2, int_nonlin = None\<rparr> [1, 2] [9, 8] 9 1 2
      \<lparr>heap = [[3, 9, 8, 2], [0, 1, 2, 3], [1 / 100]], trace = []\<rparr> =
     (Inl (ValueError ''The MCA measurement should have nonlinearities configured''),
      \<lparr>heap = [[3, 9, 8, 2], [0, 1, 2, 3], [1 / 100]], trace = []\<rparr>) \<and>
   diff_nonlin \<lparr>counts = 0, channels = 1, diff_nonlin = Some 2, int_nonlin = Some 3\<rparr> \<noteq> None \<and>
   int_nonlin \<lparr>counts = 0, channels = 1, diff_nonlin = Some 2, int_nonlin = Some 3\<rparr> \<noteq> None \<and>
   fst (fit_mca_gaussian (example_solvers [[Finite 1]] [[Finite 2]])
      \<lparr>counts = 0, channels = 1, diff_nonlin = Some 2, int_nonlin = Some 3\<rparr> [1, 2] [9, 8] 9 1 2
      \<lparr>heap = [[3, 9, 8, 2], [0, 1, 2, 3], [1 / 100], [1 / 50]], trace = []\<rparr>) \<noteq>
     Inl (ValueError ''The MCA measurement should have nonlinearities configured'')"
  using
    fit_mca_gaussian_precondition [of "\<lparr>counts = 0, channels = 1, diff_nonlin = Some 2, int_nonlin = None\<rparr>"
      "example_solvers [[Finite 1]] [[Finite 2]]" "[1, 2]" "[9, 8]" 9 1 2
      "\<lparr>heap = [[3, 9, 8, 2], [0, 1, 2, 3], [1 / 100]], trace = []\<rparr>"]
    fit_mca_gaussian_precondition [of "\<lparr>counts = 0, channels = 1, diff_nonlin = Some 2, int_nonlin = Some 3\<rparr>"
      "example_solvers [[Finite 1]] [[Finite 2]]" "[1, 2]" "[9, 8]" 9 1 2
      "\<lparr>heap = [[3, 9, 8, 2], [0, 1, 2, 3], [1 / 100], [1 / 50]], trace = []\<rparr>"]
  by simp

text \<open>
  Claim C7.  Every call of \<^verbatim>\<open>fit_mca_gaussian\<close> that reaches the fitter (both nonlinearity
  arrays are present, and the product of the integral nonlinearity and the windowed counts
  is defined) is the call of \<^verbatim>\<open>fit_odr\<close> with the scaled Gaussian, the indices and the
  windowed counts, \<open>std_x\<close> the differential nonlinearity array, \<open>std_y\<close> that product, and
  the initial guess \<open>(peak, peak_ind, 0.4 * threshold_width)\<close>.  The product is pointwise
  when the two arrays have the same length, and a single nonlinearity value multiplies every
  count.
\<close>

theorem fit_mca_gaussian_arguments:
  assumes "diff_nonlin mca = Some dn" and "int_nonlin mca = Some inl"
    and "np_mul (heap w ! inl) cnts = Inr std_y"
  shows "fit_mca_gaussian E mca inds cnts peak peak_ind threshold_width w =
           fit_odr E (gaussian_scaled E) (map real_of_int inds) cnts
             (Some (heap w ! dn)) (Some std_y)
             (Some [peak, real_of_int peak_ind, 0.4 * real_of_int threshold_width])
             False w \<and>
         (length (heap w ! inl) = length cnts \<longrightarrow> std_y = map2 (*) (heap w ! inl) cnts) \<and>
         (length (heap w ! inl) = 1 \<longrightarrow> std_y = map (\<lambda>c. hd (heap w ! inl) * c) cnts)"
proof -
  have "fit_mca_gaussian E mca inds cnts peak peak_ind threshold_width w =
           fit_odr E (gaussian_scaled E) (map real_of_int inds) cnts
             (Some (heap w ! dn)) (Some std_y)
             (Some [peak, real_of_int peak_ind, 0.4 * real_of_int threshold_width])
             False w"
    using assms(3) by (simp add: fit_mca_gaussian_configured [OF assms(1,2)])
  moreover have "std_y = map2 (*) (heap w ! inl) cnts" if "length (heap w ! inl) = length cnts"
    using assms(3) that by (simp add: np_mul_def)
  moreover have "std_y = map (\<lambda>c. hd (heap w ! inl) * c) cnts" if "length (heap w ! inl) = 1"
  proof (cases "length cnts = 1")
    case True
    then obtain c where c: "cnts = [c]" by (cases cnts) auto
    from that obtain a where a: "heap w ! inl = [a]" by (cases "heap w ! inl") auto
    from assms(3) show ?thesis by (simp add: np_mul_def a c)
  next
    case False
    with assms(3) that show ?thesis by (simp add: np_mul_def)
  qed
  ultimately show ?thesis by blast
qed

theorem fit_mca_gaussian_arguments_witness:
  "diff_nonlin \<lparr>counts = 0, channels = 1, diff_nonlin = Some 2, int_nonlin = Some 3\<rparr> = Some 2 \<and>
   int_nonlin \<lparr>counts = 0, channels = 1, diff_nonlin = Some 2, int_nonlin = Some 3\<rparr> = Some 3 \<and>
   np_mul (heap \<lparr>heap = [[3, 9, 8, 2], [0, 1, 2, 3], [1 / 100, 1 / 100], [1 / 50, 1 / 25]], trace = []\<rparr> ! 3)
     [9, 8] = Inr [9 / 50, 8 / 25] \<and>
   length (heap \<lparr>heap = [[3, 9, 8, 2], [0, 1, 2, 3], [1 / 100, 1 / 100], [1 / 50, 1 / 25]], trace = []\<rparr> ! 3) =
     length [9, 8 :: real] \<and>
   fit_mca_gaussian (example_solvers [[Finite 1]] [[Finite 2]])
      \<lparr>counts = 0, channels = 1, diff_nonlin = Some 2, int_nonlin = Some 3\<rparr> [1, 2] [9, 8] 9 1 2
      \<lparr>heap = [[3, 9, 8, 2], [0, 1, 2, 3], [1 / 100, 1 / 100], [1 / 50, 1 / 25]], trace = []\<rparr> =
   fit_odr (example_solvers [[Finite 1]] [[Finite 2]])
      (gaussian_scaled (example_solvers [[Finite 1]] [[Finite 2]])) [1, 2] [9, 8]
      (Some [1 / 100, 1 / 100]) (Some [9 / 50, 8 / 25]) (Some [9, 1, 4 / 5]) False
      \<lparr>heap = [[3, 9, 8, 2], [0, 1, 2, 3], [1 / 100, 1 / 100], [1 / 50, 1 / 25]], trace = []\<rparr> \<and>
   [9 / 50, 8 / 25] = map2 (*) [1 / 50, 1 / 25] [9, 8 :: real] \<and>
   np_mul (heap \<lparr>heap = [[3, 9, 8, 2], [0, 1, 2, 3], [1 / 100], [1 / 50]], trace = []\<rparr> ! 3)
     [9, 8] = Inr [9 / 50, 4 / 25] \<and>
   fit_mca_gaussian (example_solvers [[Finite 1]] [[Finite 2]])
      \<lparr>counts = 0, channels = 1, diff_nonlin = Some 2, int_nonlin = Some 3\<rparr> [1, 2] [9, 8] 9 1 2
      \<lparr>heap = [[3, 9, 8, 2], [0, 1, 2, 3], [1 / 100], [1 / 50]], trace = []\<rparr> =
   fit_odr (example_solvers [[Finite 1]] [[Finite 2]])
      (gaussian_scaled (example_solvers [[Finite 1]] [[Finite 2]])) [1, 2] [9, 8]
      (Some [1 / 100]) (Some [9 / 50, 4 / 25]) (Some [9, 1, 4 / 5]) False
      \<lparr>heap = [[3, 9, 8, 2], [0, 1, 2, 3], [1 / 100], [1 / 50]], trace = []\<rparr>"
proof -
  let ?m = "\<lparr>counts = 0, channels = 1, diff_nonlin = Some 2, int_nonlin = Some 3\<rparr>"
  let ?w = "\<lparr>heap = [[3, 9, 8, 2], [0, 1, 2, 3], [1 / 100, 1 / 100], [1 / 50, 1 / 25]], trace = []\<rparr>"
  let ?v = "\<lparr>heap = [[3, 9, 8, 2], [0, 1, 2, 3], [1 / 100], [1 / 50]], trace = []\<rparr>"
  have d: "diff_nonlin ?m = Some 2" and i: "int_nonlin ?m = Some 3" by simp_all
  have m1: "np_mul (heap ?w ! 3) [9, 8] = Inr [9 / 50, 8 / 25]" by (simp add: np_mul_def)
  have m2: "np_mul (heap ?v ! 3) [9, 8] = Inr [9 / 50, 4 / 25]" by (simp add: np_mul_def)
  from fit_mca_gaussian_arguments [OF d i m1, of "example_solvers [[Finite 1]] [[Finite 2]]" "[1, 2]" 9 1 2]
    fit_mca_gaussian_arguments [OF d i m2, of "example_solvers [[Finite 1]] [[Finite 2]]" "[1, 2]" 9 1 2]
    d i m1 m2
  show ?thesis by simp
qed

subsection \<open>Facts about the spectrum fit orchestrators\<close>

lemma fit_mca_gaussian_heap:
  "heap (snd (fit_mca_gaussian E mca inds cnts peak peak_ind threshold_width w)) = heap w"
proof (cases "diff_nonlin mca = None \<or> int_nonlin mca = None")
  case True
  then show ?thesis by (simp add: fit_mca_gaussian_unconfigured)
next
  case False
  then obtain dn inl where c: "diff_nonlin mca = Some dn" "int_nonlin mca = Some inl" by auto
  show ?thesis
    by (simp add: fit_mca_gaussian_configured [OF c] fit_odr_heap split: sum.splits)
qed

lemma fit_mca_gaussian_heapD:
  "fit_mca_gaussian E mca inds cnts peak peak_ind threshold_width w = (r, w') \<Longrightarrow> heap w' = heap w"
  using fit_mca_gaussian_heap [of E mca inds cnts peak peak_ind threshold_width w] by simp

text \<open>A successful Gaussian fit starts with the call of the least-squares solver.\<close>
lemma fit_mca_gaussian_trace:
  assumes "fit_mca_gaussian E mca inds cnts peak peak_ind threshold_width w = (Inr fit, w')"
  shows "heap w' = heap w \<and> (\<exists>std_y rest. trace w' = trace w @
           Curve_fit_call (map real_of_int inds) cnts
             (Some [peak, real_of_int peak_ind, 0.4 * real_of_int threshold_width]) (Some std_y) # rest)"
proof -
  have "\<not> (diff_nonlin mca = None \<or> int_nonlin mca = None)"
  proof
    assume "diff_nonlin mca = None \<or> int_nonlin mca = None"
    from fit_mca_gaussian_unconfigured [OF this, of E inds cnts peak peak_ind threshold_width w] assms
    show False by simp
  qed
  then obtain dn inl where c: "diff_nonlin mca = Some dn" "int_nonlin mca = Some inl" by auto
  from fit_mca_gaussian_heapD [OF assms] have hp: "heap w' = heap w" .
  from assms obtain std_y where sy: "np_mul (heap w ! inl) cnts = Inr std_y"
    by (cases "np_mul (heap w ! inl) cnts") (auto simp: fit_mca_gaussian_configured [OF c])
  let ?p0 = "Some [peak, real_of_int peak_ind, 0.4 * real_of_int threshold_width]"
  from assms sy have fo: "fit_odr E (gaussian_scaled E) (map real_of_int inds) cnts (Some (heap w ! dn))
     (Some std_y) ?p0 False w = (Inr fit, w')"
    by (simp add: fit_mca_gaussian_configured [OF c])
  have "\<exists>std_y rest. trace w' = trace w @
           Curve_fit_call (map real_of_int inds) cnts ?p0 (Some std_y) # rest"
  proof (cases rule: fit_odr_cases [where E=E and func="gaussian_scaled E" and x="map real_of_int inds"
        and y=cnts and ?p0.0="?p0" and std_y="Some std_y" and std_x="Some (heap w ! dn)"])
    case (curve_fit_raises msg)
    with fo show ?thesis by (simp add: fit_odr_curve_fit_raises)
  next
    case (odr_raises seed seed_cov msg)
    with fo show ?thesis by (simp add: fit_odr_odr_raises)
  next
    case (returns seed seed_cov out)
    from fit_odr_run [OF returns, of False w] fo show ?thesis by auto
  qed
  with hp show ?thesis by simp
qed

lemma fit_am_heap:
  "\<exists>extra. heap (snd (fit_am E mca ax threshold_level cut_width_mult subtracted vlines w)) = heap w @ extra"
  by (auto simp: fit_am_def prog_defs deref_def np_copy_def assign_prefix_def draw_cut_def Let_def
        list_update_append
      split: sum.splits prod.splits if_splits dest!: fit_mca_gaussian_heapD)

lemma fit_fe_heap:
  "heap (snd (fit_fe E mca ax threshold_level cut_width_mult secondary subtracted vlines w)) = heap w"
  by (auto simp: fit_fe_def prog_defs deref_def draw_cut_def Let_def
      split: sum.splits prod.splits if_splits dest!: fit_mca_gaussian_heapD)

lemma fit_manual_heap:
  "heap (snd (fit_manual E mca ax min_ind max_ind subtracted vlines w)) = heap w"
  by (auto simp: fit_manual_def prog_defs deref_def draw_cut_def Let_def
      split: sum.splits prod.splits if_splits dest!: fit_mca_gaussian_heapD)

lemma fancy_index_Inr: "fancy_index xs inds = Inr vs \<Longrightarrow>
  vs = map (\<lambda>i. xs ! nat (if i < 0 then int (length xs) + i else i)) inds"
  by (induction inds arbitrary: vs) (auto simp: py_subscript_def Let_def split: sum.splits if_splits)

lemma fit_am_returns:
  assumes "fit_am E mca ax threshold_level cut_width_mult subtracted vlines w = (Inr fit, w')"
    and "counts_ref = (case subtracted of Some a \<Rightarrow> a | None \<Rightarrow> counts mca)"
    and "counts_ref < length (heap w)"
  shows "\<exists>above half_ind filtered cut_inds threshold_width peak_ind peak windowed std_y rest.
           np_where_gt (heap w ! counts_ref) (mul64 threshold_level (Max (set (heap w ! counts_ref)))) = above \<and>
           above \<noteq> [] \<and> half_ind = (hd above + last above) div 2 \<and>
           filtered = replicate (min half_ind (length (heap w ! counts_ref))) 0 @ drop half_ind (heap w ! counts_ref) \<and>
           heap w' = heap w @ [filtered] \<and>
           get_cut filtered threshold_level cut_width_mult = Inr (cut_inds, threshold_width, peak_ind, peak) \<and>
           fancy_index (heap w ! counts_ref) cut_inds = Inr windowed \<and>
           trace w' = trace w @ (if vlines then [Ax_vlines ax (hd cut_inds) (last cut_inds) peak] else []) @
             Curve_fit_call (map real_of_int cut_inds) windowed
               (Some [peak, real_of_int peak_ind, 0.4 * real_of_int threshold_width]) (Some std_y) # rest"
  using assms
  apply (auto simp: fit_am_def prog_defs deref_def np_copy_def assign_prefix_def draw_cut_def Let_def
        list_update_append np_max_def first_of_def last_of_def nth_append
      split: sum.splits prod.splits if_splits option.splits
      dest!: fit_mca_gaussian_trace)
  done

lemma get_cut_range:
  assumes "get_cut data thr cm = Inr (cut_inds, tw, pidx, pk)"
  shows "set cut_inds \<subseteq> {0..<int (length data)}"
proof -
  from get_cut_InrD [OF assms] obtain p where
    am: "np_argmax data = Inr p" and ne: "np_where_gt data (mul64 (data ! p) thr) \<noteq> []" by blast
  let ?inds = "np_where_gt data (mul64 (data ! p) thr)"
  let ?lo = "py_round (max 0 (real p - cm * (real p - real (hd ?inds))))"
  let ?hi = "py_round (min (real (length data)) (real p + cm * (real (last ?inds) - real p) + 1))"
  have "0 \<le> ?lo" by (rule py_round_ge_int) simp
  moreover have "?hi \<le> int (length data)" by (rule py_round_le_int) simp
  moreover from get_cut_Inr [OF am ne, of cm] assms have "cut_inds = np_arange ?lo ?hi" by simp
  ultimately show ?thesis by (auto simp: np_arange_set)
qed

lemma get_cut_hd_le:
  assumes "get_cut data thr cm = Inr (cut_inds, tw, pidx, pk)" and "i \<in> set cut_inds"
  shows "hd cut_inds \<le> i"
proof -
  from get_cut_InrD [OF assms(1)] obtain p where
    am: "np_argmax data = Inr p" and ne: "np_where_gt data (mul64 (data ! p) thr) \<noteq> []" by blast
  from get_cut_Inr [OF am ne, of cm] assms(1) obtain lo hi where c: "cut_inds = np_arange lo hi" by simp
  with assms(2) have "lo < hi" and "lo \<le> i" by (auto simp: np_arange_set)
  with np_arange_nonempty(2) [OF \<open>lo < hi\<close>] c show ?thesis by simp
qed

lemma fit_fe_returns:
  assumes "fit_fe E mca ax threshold_level cut_width_mult True subtracted vlines w = (Inr fits, w')"
    and "cnts = heap w ! (case subtracted of Some a \<Rightarrow> a | None \<Rightarrow> counts mca)"
  shows "\<exists>cut_inds tw pidx pk cut_inds2 tw2 pidx2 pk2 y1 p1 s1 later y2 p2 s2.
           get_cut cnts threshold_level cut_width_mult = Inr (cut_inds, tw, pidx, pk) \<and> cut_inds \<noteq> [] \<and>
           get_cut (py_slice_to cnts (hd cut_inds - 10)) threshold_level cut_width_mult =
             Inr (cut_inds2, tw2, pidx2, pk2) \<and>
           trace w' = trace w @ Curve_fit_call (map real_of_int cut_inds) y1 p1 s1 # later \<and>
           Curve_fit_call (map real_of_int cut_inds2) y2 p2 s2 \<in> set later"
  using assms
  by (fastforce simp: fit_fe_def prog_defs deref_def draw_cut_def Let_def first_of_def last_of_def
      split: sum.splits prod.splits if_splits option.splits dest!: fit_mca_gaussian_trace)

text \<open>The two cuts of the example spectrum.\<close>

lemma primary_cut:
  "get_cut example_two_peaks (1 / 2) (17 / 10) =
     Inr ([72, 73, 74, 75, 76, 77, 78, 79, 80, 81, 82, 83, 84, 85, 86, 87, 88, 89], 10, 80, 100)"
  by (simp add: example_two_peaks_def get_cut_eval)

lemma secondary_cut:
  "get_cut (py_slice_to example_two_peaks 62) (1 / 2) (17 / 10) =
     Inr ([12, 13, 14, 15, 16, 17, 18, 19, 20, 21, 22, 23, 24, 25, 26, 27, 28, 29], 10, 20, 40)"
  by (simp add: example_two_peaks_def py_slice_to_def get_cut_eval)

lemma example_fit_fe:
  "fst (fit_fe (example_solvers [[Finite 1]] [[Finite 2]]) example_mca 0 (1 / 2) (17 / 10) True None True
         (example_world example_two_peaks)) =
   Inr (Two_fits ([101, 81, 5], [[Finite 2]]) ([41, 21, 5], [[Finite 2]]))"
proof -
  have f1: "fancy_index example_two_peaks [72, 73, 74, 75, 76, 77, 78, 79, 80, 81, 82, 83, 84, 85, 86, 87, 88, 89] =
      Inr [28, 38, 49, 61, 73, 84, 92, 98, 100, 98, 92, 84, 73, 61, 49, 38, 28, 20]"
    by (simp add: example_two_peaks_def py_subscript_def)
  have f2: "fancy_index example_two_peaks [12, 13, 14, 15, 16, 17, 18, 19, 20, 21, 22, 23, 24, 25, 26, 27, 28, 29] =
      Inr [11, 15, 19, 24, 29, 33, 37, 39, 40, 39, 37, 33, 29, 24, 19, 15, 11, 8]"
    by (simp add: example_two_peaks_def py_subscript_def)
  show ?thesis
    by (simp add: fit_fe_def prog_defs deref_def draw_cut_def first_of_def last_of_def
        example_world_def example_mca_def primary_cut secondary_cut f1 f2
        fit_mca_gaussian_def fit_odr_def np_mul_def example_solvers_def gaussian_curve_def
        np_any_def np_any_isinf_def truthy_def np_isinf_def del: fancy_index.simps)
qed

lemma example_fit_am:
  "fit_am (example_solvers [[Finite 1]] [[Finite 2]]) example_mca 0 (1 / 2) (17 / 10) None True
      (example_world [0, 1, 3, 1, 0, 2, 6, 10, 6, 2, 0]) =
   (Inr ([11, 8, 7 / 5], [[Finite 2]]),
    \<lparr>heap = [[0, 1, 3, 1, 0, 2, 6, 10, 6, 2, 0], [0, 1, 2, 3, 4, 5, 6, 7, 8, 9, 10], [1 / 100], [1 / 50],
             [0, 0, 0, 0, 0, 0, 0, 10, 6, 2, 0]],
     trace = [Ax_vlines 0 7 9 10,
        Curve_fit_call [7, 8, 9] [10, 6, 2] (Some [10, 7, 2 / 5]) (Some [1 / 5, 3 / 25, 1 / 25]),
        Odr_run_call [7, 8, 9] [10, 6, 2] (Some [1 / 100]) (Some [1 / 5, 3 / 25, 1 / 25]) [10, 7, 2 / 5],
        Ax_plot 0 (Some [0, 1, 2, 3, 4, 5, 6, 7, 8, 9, 10]) [0, 0, 0, 0, 0, 0, 0, 0, 0, 0, 0]]\<rparr>)"
  by (simp add: fit_am_def prog_defs deref_def np_copy_def assign_prefix_def draw_cut_def
      first_of_def last_of_def np_max_def example_world_def example_mca_def
      get_cut_eval py_subscript_def
      fit_mca_gaussian_def fit_odr_def np_mul_def example_solvers_def
      np_any_def np_any_isinf_def truthy_def np_isinf_def)

text \<open>Independence of the store: rules for \<^const>\<open>same_value\<close>.\<close>

lemma agree_refl: "n \<le> length (heap w) \<Longrightarrow> agree n w w"
  by (simp add: agree_def)

lemma agree_sym: "agree n w w' \<Longrightarrow> agree n w' w"
  by (simp add: agree_def)

lemma agree_trans: "agree n w w' \<Longrightarrow> agree n w' w'' \<Longrightarrow> agree n w w''"
  by (simp add: agree_def)

lemma agree_nth: "agree n w w' \<Longrightarrow> a < n \<Longrightarrow> heap w ! a = heap w' ! a"
  by (metis agree_def nth_take)

lemma agree_heap_eq: "heap w' = heap w \<Longrightarrow> n \<le> length (heap w) \<Longrightarrow> agree n w w'"
  by (simp add: agree_def)

lemma agree_extend: "take (length (heap w)) (heap w') = heap w \<Longrightarrow> n \<le> length (heap w) \<Longrightarrow> agree n w w'"
proof -
  assume t: "take (length (heap w)) (heap w') = heap w" and n: "n \<le> length (heap w)"
  from t have "length (take (length (heap w)) (heap w')) = length (heap w)" by simp
  then have "length (heap w) \<le> length (heap w')" by simp
  moreover have "take n (take (length (heap w)) (heap w')) = take n (heap w')"
    using n by (simp add: min.absorb1)
  with t have "take n (heap w) = take n (heap w')" by simp
  ultimately show ?thesis using n by (simp add: agree_def)
qed

lemma same_valueI:
  "(\<And>w w'. agree n w w' \<Longrightarrow> fst (m w) = fst (m' w') \<and> agree n (snd (m w)) (snd (m' w'))) \<Longrightarrow> same_value n m m'"
  by (simp add: same_value_def)

lemma same_valueD:
  "same_value n m m' \<Longrightarrow> agree n w w' \<Longrightarrow> fst (m w) = fst (m' w') \<and> agree n (snd (m w)) (snd (m' w'))"
  by (simp add: same_value_def)

lemma sv_ret: "same_value n (ret x) (ret x)"
  by (simp add: same_value_def ret_def)

lemma sv_raise: "same_value n (raise e) (raise e)"
  by (simp add: same_value_def raise_def)

lemma sv_lift: "same_value n (lift r) (lift r)"
  by (simp add: same_value_def lift_def)

lemma sv_emit: "same_value n (emit ev) (emit ev')"
  by (simp add: same_value_def emit_def agree_def)

lemma sv_deref: "a < n \<Longrightarrow> same_value n (deref a) (deref a)"
  by (auto simp: same_value_def deref_def dest: agree_nth)

lemma sv_pwhen: "same_value n m m' \<Longrightarrow> same_value n (pwhen b m) (pwhen b m')"
  by (simp add: pwhen_def sv_ret)

lemma sv_if: "same_value n m1 m1' \<Longrightarrow> same_value n m2 m2' \<Longrightarrow>
  same_value n (if b then m1 else m2) (if b then m1' else m2')"
  by simp

lemma sv_bind:
  assumes "same_value n m m'" and "\<And>x. same_value n (f x) (f' x)"
  shows "same_value n (pbind m f) (pbind m' f')"
proof (rule same_valueI)
  fix w w' assume a: "agree n w w'"
  from same_valueD [OF assms(1) a]
  have r: "fst (m w) = fst (m' w')" and a1: "agree n (snd (m w)) (snd (m' w'))" by simp_all
  show "fst (pbind m f w) = fst (pbind m' f' w') \<and> agree n (snd (pbind m f w)) (snd (pbind m' f' w'))"
  proof (cases "fst (m w)")
    case (Inl e)
    with r have "fst (m' w') = Inl e" by simp
    with Inl a1 show ?thesis by (simp add: pbind_def split_beta)
  next
    case (Inr x)
    with r have "fst (m' w') = Inr x" by simp
    with Inr same_valueD [OF assms(2) a1, of x] show ?thesis by (simp add: pbind_def split_beta)
  qed
qed

lemma sv_case_prod:
  "(\<And>a b. same_value n (f a b) (f' a b)) \<Longrightarrow> same_value n (case p of (a, b) \<Rightarrow> f a b) (case p of (a, b) \<Rightarrow> f' a b)"
  by (cases p) simp

lemma sv_draw_cut: "same_value n (draw_cut ax c p) (draw_cut ax' c p)"
  unfolding draw_cut_def by (intro sv_bind sv_lift sv_emit)

lemma sv_copy_bind:
  assumes "a < n" and "\<And>d. same_value n (g d) (g' d)"
  shows "same_value n
     (pbind (np_copy a) (\<lambda>c. pbind (assign_prefix c k v) (\<lambda>_. pbind (deref c) g)))
     (pbind (np_copy a) (\<lambda>c. pbind (assign_prefix c k v) (\<lambda>_. pbind (deref c) g')))"
proof (rule same_valueI)
  fix w w' assume ag: "agree n w w'"
  let ?d = "replicate (min k (length (heap w ! a))) v @ drop k (heap w ! a)"
  from agree_nth [OF ag assms(1)] have eq: "heap w' ! a = heap w ! a" by simp
  let ?w1 = "w\<lparr>heap := heap w @ [?d]\<rparr>" and ?w1' = "w'\<lparr>heap := heap w' @ [?d]\<rparr>"
  have l: "pbind (np_copy a) (\<lambda>c. pbind (assign_prefix c k v) (\<lambda>_. pbind (deref c) g)) w = g ?d ?w1"
    by (simp add: pbind_def np_copy_def assign_prefix_def deref_def list_update_append)
  have r: "pbind (np_copy a) (\<lambda>c. pbind (assign_prefix c k v) (\<lambda>_. pbind (deref c) g')) w' = g' ?d ?w1'"
    by (simp add: pbind_def np_copy_def assign_prefix_def deref_def list_update_append eq)
  from ag have "agree n ?w1 ?w1'" by (simp add: agree_def)
  from same_valueD [OF assms(2) this, of ?d] l r
  show "fst (pbind (np_copy a) (\<lambda>c. pbind (assign_prefix c k v) (\<lambda>_. pbind (deref c) g)) w) =
        fst (pbind (np_copy a) (\<lambda>c. pbind (assign_prefix c k v) (\<lambda>_. pbind (deref c) g')) w') \<and>
        agree n (snd (pbind (np_copy a) (\<lambda>c. pbind (assign_prefix c k v) (\<lambda>_. pbind (deref c) g)) w))
          (snd (pbind (np_copy a) (\<lambda>c. pbind (assign_prefix c k v) (\<lambda>_. pbind (deref c) g')) w'))"
    by simp
qed

lemma sv_fit_odr: "same_value n (fit_odr E func x y std_x std_y p0 debug) (fit_odr E func x y std_x std_y p0 debug)"
proof (rule same_valueI)
  fix w w' assume ag: "agree n w w'"
  have "agree n (snd (fit_odr E func x y std_x std_y p0 debug w)) (snd (fit_odr E func x y std_x std_y p0 debug w'))"
    using ag by (simp add: agree_def fit_odr_heap)
  with fit_odr_fst [of E func x y std_x std_y p0 debug w w']
  show "fst (fit_odr E func x y std_x std_y p0 debug w) = fst (fit_odr E func x y std_x std_y p0 debug w') \<and>
        agree n (snd (fit_odr E func x y std_x std_y p0 debug w)) (snd (fit_odr E func x y std_x std_y p0 debug w'))"
    by simp
qed

lemma sv_fit_mca_gaussian:
  assumes "case diff_nonlin mca of None \<Rightarrow> True | Some a \<Rightarrow> a < n"
    and "case int_nonlin mca of None \<Rightarrow> True | Some a \<Rightarrow> a < n"
  shows "same_value n (fit_mca_gaussian E mca inds cnts peak peak_ind threshold_width)
           (fit_mca_gaussian E mca inds cnts peak peak_ind threshold_width)"
proof (cases "diff_nonlin mca = None \<or> int_nonlin mca = None")
  case True
  then show ?thesis
    by (auto simp: same_value_def fit_mca_gaussian_unconfigured)
next
  case False
  then obtain dn inl where c: "diff_nonlin mca = Some dn" "int_nonlin mca = Some inl" by auto
  with assms have lt: "dn < n" "inl < n" by simp_all
  show ?thesis
  proof (rule same_valueI)
    fix w w' assume ag: "agree n w w'"
    from agree_nth [OF ag] lt have eq: "heap w' ! dn = heap w ! dn" "heap w' ! inl = heap w ! inl" by simp_all
    show "fst (fit_mca_gaussian E mca inds cnts peak peak_ind threshold_width w) =
          fst (fit_mca_gaussian E mca inds cnts peak peak_ind threshold_width w') \<and>
          agree n (snd (fit_mca_gaussian E mca inds cnts peak peak_ind threshold_width w))
            (snd (fit_mca_gaussian E mca inds cnts peak peak_ind threshold_width w'))"
    proof (cases "np_mul (heap w ! inl) cnts")
      case (Inl e)
      with ag eq show ?thesis by (simp add: fit_mca_gaussian_configured [OF c])
    next
      case (Inr std_y)
      with eq same_valueD [OF sv_fit_odr ag] show ?thesis
        by (simp add: fit_mca_gaussian_configured [OF c])
    qed
  qed
qed

lemmas sv_intros = sv_bind sv_ret sv_raise sv_lift sv_emit sv_pwhen sv_if sv_case_prod sv_draw_cut

lemma sv_fit_am:
  assumes "counts mca < n" "channels mca < n"
    and "case diff_nonlin mca of None \<Rightarrow> True | Some a \<Rightarrow> a < n"
    and "case int_nonlin mca of None \<Rightarrow> True | Some a \<Rightarrow> a < n"
  shows "same_value n (fit_am E mca ax threshold_level cut_width_mult None vlines)
           (fit_am E mca ax' threshold_level cut_width_mult None vlines)"
  unfolding fit_am_def Let_def option.case
  by (intro sv_intros sv_copy_bind sv_deref sv_fit_mca_gaussian assms)

lemma sv_fit_fe:
  assumes "counts mca < n" "channels mca < n"
    and "case diff_nonlin mca of None \<Rightarrow> True | Some a \<Rightarrow> a < n"
    and "case int_nonlin mca of None \<Rightarrow> True | Some a \<Rightarrow> a < n"
  shows "same_value n (fit_fe E mca ax threshold_level cut_width_mult secondary None vlines)
           (fit_fe E mca ax' threshold_level cut_width_mult secondary None vlines)"
  unfolding fit_fe_def Let_def option.case
  by (intro sv_intros sv_deref sv_fit_mca_gaussian assms)

text \<open>Computations that keep the store, and the collecting loop.\<close>

lemma keeps_heapD: "keeps_heap m \<Longrightarrow> m w = (r, w') \<Longrightarrow> heap w' = heap w"
  by (auto simp: keeps_heap_def dest: spec [of _ w])

lemma kh_ret: "keeps_heap (ret x)"
  by (simp add: keeps_heap_def ret_def)

lemma kh_raise: "keeps_heap (raise e)"
  by (simp add: keeps_heap_def raise_def)

lemma kh_lift: "keeps_heap (lift r)"
  by (simp add: keeps_heap_def lift_def)

lemma kh_emit: "keeps_heap (emit ev)"
  by (simp add: keeps_heap_def emit_def)

lemma kh_emits: "keeps_heap (emits evs)"
  by (simp add: keeps_heap_def emits_def)

lemma kh_deref: "keeps_heap (deref a)"
  by (simp add: keeps_heap_def deref_def)

lemma kh_pwhen: "keeps_heap m \<Longrightarrow> keeps_heap (pwhen b m)"
  by (simp add: pwhen_def kh_ret)

lemma kh_bind:
  assumes "keeps_heap m" and "\<And>x. keeps_heap (f x)"
  shows "keeps_heap (pbind m f)"
  unfolding keeps_heap_def
proof
  fix w
  obtain r w1 where m: "m w = (r, w1)" by (cases "m w")
  from keeps_heapD [OF assms(1) m] have h1: "heap w1 = heap w" .
  show "heap (snd (pbind m f w)) = heap w"
  proof (cases r)
    case (Inl e)
    with m h1 show ?thesis by (simp add: pbind_def)
  next
    case (Inr x)
    from assms(2) [of x] have "heap (snd (f x w1)) = heap w1" by (simp add: keeps_heap_def)
    with Inr m h1 show ?thesis by (simp add: pbind_def)
  qed
qed

lemma kh_case_prod:
  "(\<And>a b. keeps_heap (f a b)) \<Longrightarrow> keeps_heap (case p of (a, b) \<Rightarrow> f a b)"
  by (cases p) simp

lemma kh_collect: "(\<And>x. keeps_heap (f x)) \<Longrightarrow> keeps_heap (collect f xs)"
  by (induction xs) (auto intro!: kh_bind kh_ret)

lemmas kh_intros = kh_bind kh_ret kh_raise kh_lift kh_emit kh_emits kh_deref kh_pwhen kh_case_prod kh_collect

lemma kh_create_subplot_grid: "keeps_heap (create_subplot_grid E num_plots ratio xlabel ylabel)"
  unfolding create_subplot_grid_def Let_def
  by (auto intro!: kh_intros)

lemma kh_scan_limits: "keeps_heap (scan_limits mcas)"
  unfolding scan_limits_def Let_def by (intro kh_intros)

lemma kh_scan_axes: "keeps_heap (scan_axes axes voltages gains max_ch mph i mca)"
  unfolding scan_axes_def by (intro kh_intros)

lemma pbind_Inr:
  assumes "pbind m f w = (Inr y, w')"
  obtains x w1 where "m w = (Inr x, w1)" and "f x w1 = (Inr y, w')"
  using assms by (auto simp: pbind_def split: prod.splits sum.splits)

text \<open>
  A collecting loop over the spectra whose body first sets up the axes, without touching
  the store, and then fits: the values collected are those of the fits made alone.
\<close>
lemma collect_values:
  assumes sv: "\<And>mca ax. mca \<in> set mcas \<Longrightarrow> same_value n (F mca ax) (F mca ax0)"
    and ext: "\<And>mca ax w. take (length (heap w)) (heap (snd (F mca ax w))) = heap w"
    and kh: "\<And>i mca. keeps_heap (A i mca)"
    and n: "n \<le> length (heap w0)"
    and ag: "agree n w0 w"
    and run: "collect (\<lambda>(i, mca). pbind (A i mca) (\<lambda>ax. F mca ax)) (enumerate k mcas) w = (Inr fits, w')"
  shows "map Inr fits = map (\<lambda>mca. fst (F mca ax0 w0)) mcas"
  using sv ag run
proof (induction mcas arbitrary: k w fits w')
  case Nil
  then show ?case by (simp add: ret_def)
next
  case (Cons mca mcas)
  from Cons.prems(3) have "pbind (pbind (A k mca) (\<lambda>ax. F mca ax))
      (\<lambda>y. pbind (collect (\<lambda>(i, mca). pbind (A i mca) (\<lambda>ax. F mca ax)) (enumerate (Suc k) mcas)) (\<lambda>ys. ret (y # ys))) w =
      (Inr fits, w')" by simp
  then obtain y w1 where body: "pbind (A k mca) (\<lambda>ax. F mca ax) w = (Inr y, w1)"
    and rest: "pbind (collect (\<lambda>(i, mca). pbind (A i mca) (\<lambda>ax. F mca ax)) (enumerate (Suc k) mcas))
                 (\<lambda>ys. ret (y # ys)) w1 = (Inr fits, w')"
    by (rule pbind_Inr)
  from rest obtain ys w2 where
    tail: "collect (\<lambda>(i, mca). pbind (A i mca) (\<lambda>ax. F mca ax)) (enumerate (Suc k) mcas) w1 = (Inr ys, w2)"
    and fits: "ret (y # ys) w2 = (Inr fits, w')"
    by (rule pbind_Inr)
  from body obtain ax wa where a: "A k mca w = (Inr ax, wa)" and f: "F mca ax wa = (Inr y, w1)"
    by (rule pbind_Inr)
  from keeps_heapD [OF kh a] Cons.prems(2) have "agree n w0 wa" by (simp add: agree_def)
  then have awa: "agree n wa w0" by (rule agree_sym)
  have svm: "same_value n (F mca ax) (F mca ax0)" by (rule Cons.prems(1)) simp
  from same_valueD [OF svm awa] f
  have val: "fst (F mca ax0 w0) = Inr y" and a1: "agree n w1 (snd (F mca ax0 w0))" by simp_all
  from agree_extend [OF ext n, of mca ax0] have "agree n w0 (snd (F mca ax0 w0))" .
  with a1 have ag1: "agree n w0 w1" using agree_sym agree_trans by blast
  have "map Inr ys = map (\<lambda>mca. fst (F mca ax0 w0)) mcas"
    by (rule Cons.IH [OF _ ag1 tail]) (simp add: Cons.prems(1))
  with val fits show ?case by (auto simp: ret_def)
qed

text \<open>The values that the two scans collect.\<close>

lemma allocated_sv_fit_am:
  assumes "allocated w mca"
  shows "same_value (length (heap w)) (fit_am E mca ax threshold_level cut_width_mult None vlines)
           (fit_am E mca ax' threshold_level cut_width_mult None vlines)"
  using assms by (intro sv_fit_am) (simp_all add: allocated_def)

lemma allocated_sv_fit_fe:
  assumes "allocated w mca"
  shows "same_value (length (heap w)) (fit_fe E mca ax threshold_level cut_width_mult secondary None vlines)
           (fit_fe E mca ax' threshold_level cut_width_mult secondary None vlines)"
  using assms by (intro sv_fit_fe) (simp_all add: allocated_def)

lemma fit_am_extends:
  "take (length (heap w)) (heap (snd (fit_am E mca ax threshold_level cut_width_mult subtracted vlines w))) = heap w"
  using fit_am_heap [of E mca ax threshold_level cut_width_mult subtracted vlines w] by auto

lemma fit_fe_extends:
  "take (length (heap w)) (heap (snd (fit_fe E mca ax threshold_level cut_width_mult secondary subtracted vlines w))) = heap w"
  by (simp add: fit_fe_heap)

text \<open>The shape of both scans: a prelude that keeps the store, the collecting loop, the saved figure.\<close>
lemma scan_values:
  assumes sv: "\<And>mca ax. mca \<in> set mcas \<Longrightarrow> same_value (length (heap w)) (F mca ax) (F mca ax0)"
    and ext: "\<And>mca ax w. take (length (heap w)) (heap (snd (F mca ax w))) = heap w"
    and run: "pbind (emit ev) (\<lambda>_.
       pbind (create_subplot_grid E (length mcas) 1 xl yl) (\<lambda>(axes, num_plots_x, num_plots_y).
       pbind (pwhen fig_titles (emit ev2)) (\<lambda>_.
       pbind (scan_limits mcas) (\<lambda>(max_ch, max_peak_height_round).
       pbind (collect (\<lambda>(i, mca).
                pbind (scan_axes axes voltages gains max_ch max_peak_height_round i mca) (\<lambda>ax. F mca ax))
              (enumerate 0 mcas)) (\<lambda>fits.
       pbind (emit ev3) (\<lambda>_. ret fits)))))) w = (Inr fits, w')"
  shows "map Inr fits = map (\<lambda>mca. fst (F mca ax0 w)) mcas"
proof -
  from run obtain u1 w1 where s1: "emit ev w = (Inr u1, w1)" and r1:
    "pbind (create_subplot_grid E (length mcas) 1 xl yl) (\<lambda>(axes, num_plots_x, num_plots_y).
       pbind (pwhen fig_titles (emit ev2)) (\<lambda>_.
       pbind (scan_limits mcas) (\<lambda>(max_ch, max_peak_height_round).
       pbind (collect (\<lambda>(i, mca).
                pbind (scan_axes axes voltages gains max_ch max_peak_height_round i mca) (\<lambda>ax. F mca ax))
              (enumerate 0 mcas)) (\<lambda>fits.
       pbind (emit ev3) (\<lambda>_. ret fits))))) w1 = (Inr fits, w')"
    by (rule pbind_Inr)
  from r1 obtain g w2 where s2: "create_subplot_grid E (length mcas) 1 xl yl w1 = (Inr g, w2)" and r2:
    "(case g of (axes, num_plots_x, num_plots_y) \<Rightarrow>
       pbind (pwhen fig_titles (emit ev2)) (\<lambda>_.
       pbind (scan_limits mcas) (\<lambda>(max_ch, max_peak_height_round).
       pbind (collect (\<lambda>(i, mca).
                pbind (scan_axes axes voltages gains max_ch max_peak_height_round i mca) (\<lambda>ax. F mca ax))
              (enumerate 0 mcas)) (\<lambda>fits.
       pbind (emit ev3) (\<lambda>_. ret fits))))) w2 = (Inr fits, w')"
    by (rule pbind_Inr)
  obtain axes num_plots_x num_plots_y where g: "g = (axes, num_plots_x, num_plots_y)" by (cases g)
  from r2 g obtain u3 w3 where s3: "pwhen fig_titles (emit ev2) w2 = (Inr u3, w3)" and r3:
    "pbind (scan_limits mcas) (\<lambda>(max_ch, max_peak_height_round).
       pbind (collect (\<lambda>(i, mca).
                pbind (scan_axes axes voltages gains max_ch max_peak_height_round i mca) (\<lambda>ax. F mca ax))
              (enumerate 0 mcas)) (\<lambda>fits.
       pbind (emit ev3) (\<lambda>_. ret fits))) w3 = (Inr fits, w')"
    by (auto elim: pbind_Inr)
  from r3 obtain l w4 where s4: "scan_limits mcas w3 = (Inr l, w4)" and r4:
    "(case l of (max_ch, max_peak_height_round) \<Rightarrow>
       pbind (collect (\<lambda>(i, mca).
                pbind (scan_axes axes voltages gains max_ch max_peak_height_round i mca) (\<lambda>ax. F mca ax))
              (enumerate 0 mcas)) (\<lambda>fits.
       pbind (emit ev3) (\<lambda>_. ret fits))) w4 = (Inr fits, w')"
    by (rule pbind_Inr)
  obtain max_ch max_peak_height_round where l: "l = (max_ch, max_peak_height_round)" by (cases l)
  from r4 l obtain fits0 w5 where s5:
    "collect (\<lambda>(i, mca).
        pbind (scan_axes axes voltages gains max_ch max_peak_height_round i mca) (\<lambda>ax. F mca ax))
      (enumerate 0 mcas) w4 = (Inr fits0, w5)"
    and r5: "pbind (emit ev3) (\<lambda>_. ret fits0) w5 = (Inr fits, w')"
    by (auto elim: pbind_Inr)
  from r5 have eq: "fits = fits0" by (auto simp: pbind_def emit_def ret_def)
  from keeps_heapD [OF kh_emit s1] keeps_heapD [OF kh_create_subplot_grid s2]
    keeps_heapD [OF kh_pwhen [OF kh_emit] s3] keeps_heapD [OF kh_scan_limits s4]
  have "heap w4 = heap w" by simp
  then have ag: "agree (length (heap w)) w w4" by (simp add: agree_def)
  from collect_values [where F=F and A="scan_axes axes voltages gains max_ch max_peak_height_round",
      OF sv ext kh_scan_axes _ ag s5] eq
  show ?thesis by simp
qed

lemma fit_am_hv_scan_values:
  assumes "\<forall>mca \<in> set mcas. allocated w mca"
    and "fit_am_hv_scan E mcas voltages gains fig_titles vlines w = (Inr fits, w')"
  shows "map Inr fits = map (\<lambda>mca. fst (fit_am E mca ax THRESHOLD_LEVEL CUT_WIDTH_MULT None vlines w)) mcas"
proof (rule scan_values [where F="\<lambda>mca ax. fit_am E mca ax THRESHOLD_LEVEL CUT_WIDTH_MULT None vlines"])
  show "same_value (length (heap w)) (fit_am E mca ax' THRESHOLD_LEVEL CUT_WIDTH_MULT None vlines)
          (fit_am E mca ax THRESHOLD_LEVEL CUT_WIDTH_MULT None vlines)" if "mca \<in> set mcas" for mca ax'
    using assms(1) that by (intro allocated_sv_fit_am) simp
  show "take (length (heap v)) (heap (snd (fit_am E mca ax' THRESHOLD_LEVEL CUT_WIDTH_MULT None vlines v))) = heap v"
    for mca ax' v by (rule fit_am_extends)
  from assms(2) show "pbind (emit (Print ''Fitting Am HV scan'')) (\<lambda>_.
       pbind (create_subplot_grid E (length mcas) 1 (Some ''MCA ch.'') (Some ''Count''))
         (\<lambda>(axes, num_plots_x, num_plots_y).
       pbind (pwhen fig_titles (emit (Fig_suptitle ''Am fits''))) (\<lambda>_.
       pbind (scan_limits mcas) (\<lambda>(max_ch, max_peak_height_round).
       pbind (collect (\<lambda>(i, mca).
                pbind (scan_axes axes voltages gains max_ch max_peak_height_round i mca)
                  (\<lambda>ax. fit_am E mca ax THRESHOLD_LEVEL CUT_WIDTH_MULT None vlines))
              (enumerate 0 mcas)) (\<lambda>fits.
       pbind (emit (Save_fig ''am_scan_fits'')) (\<lambda>_. ret fits)))))) w = (Inr fits, w')"
    by (simp add: fit_am_hv_scan_def)
qed

lemma fit_fe_hv_scan_values:
  assumes "\<forall>mca \<in> set mcas. allocated w mca"
    and "fit_fe_hv_scan E mcas voltages gains threshold_level cut_width_mult fig_titles vlines w = (Inr fits, w')"
  shows "map Inr fits = map (\<lambda>mca. fst (fit_fe E mca ax threshold_level cut_width_mult False None vlines w)) mcas"
proof (rule scan_values [where F="\<lambda>mca ax. fit_fe E mca ax threshold_level cut_width_mult False None vlines"])
  show "same_value (length (heap w)) (fit_fe E mca ax' threshold_level cut_width_mult False None vlines)
          (fit_fe E mca ax threshold_level cut_width_mult False None vlines)" if "mca \<in> set mcas" for mca ax'
    using assms(1) that by (intro allocated_sv_fit_fe) simp
  show "take (length (heap v)) (heap (snd (fit_fe E mca ax' threshold_level cut_width_mult False None vlines v))) = heap v"
    for mca ax' v by (rule fit_fe_extends)
  from assms(2) show "pbind (emit (Print ''Fitting Fe HV scan'')) (\<lambda>_.
       pbind (create_subplot_grid E (length mcas) 1 (Some ''MCA ch.'') (Some ''Count''))
         (\<lambda>(axes, num_plots_x, num_plots_y).
       pbind (pwhen fig_titles (emit (Fig_suptitle ''Fe fits''))) (\<lambda>_.
       pbind (scan_limits mcas) (\<lambda>(max_ch, max_peak_height_round).
       pbind (collect (\<lambda>(i, mca).
                pbind (scan_axes axes voltages gains max_ch max_peak_height_round i mca)
                  (\<lambda>ax. fit_fe E mca ax threshold_level cut_width_mult False None vlines))
              (enumerate 0 mcas)) (\<lambda>fits.
       pbind (emit (Save_fig ''fe_scan_fits'')) (\<lambda>_. ret fits)))))) w = (Inr fits, w')"
    by (simp add: fit_fe_hv_scan_def)
qed

text \<open>From results that are a map over the inputs to permutations.\<close>
lemma map_values_nth:
  fixes f :: "'m \<Rightarrow> 'e + 'a"
  assumes "map Inr fits = map f mcas"
  shows "length fits = length mcas \<and> (\<forall>i < length mcas. f (mcas ! i) = Inr (fits ! i))"
proof -
  from assms have "length (map (Inr :: 'a \<Rightarrow> 'e + 'a) fits) = length (map f mcas)" by simp
  then have l: "length fits = length mcas" by simp
  have "f (mcas ! i) = Inr (fits ! i)" if "i < length mcas" for i
  proof -
    from that l have "map (Inr :: 'a \<Rightarrow> 'e + 'a) fits ! i = Inr (fits ! i)" by simp
    moreover from that have "map f mcas ! i = f (mcas ! i)" by simp
    ultimately show ?thesis using assms by simp
  qed
  with l show ?thesis by blast
qed

lemma map_values_mset:
  fixes f :: "'m \<Rightarrow> 'e + 'a"
  assumes "map Inr fits = map f mcas" and "map Inr fits2 = map f mcas2" and "mset mcas2 = mset mcas"
  shows "mset fits2 = mset fits"
proof -
  have "image_mset (Inr :: 'a \<Rightarrow> 'e + 'a) (mset fits2) = mset (map Inr fits2)" by simp
  also have "\<dots> = image_mset f (mset mcas2)" using assms(2) by simp
  also have "\<dots> = image_mset f (mset mcas)" using assms(3) by simp
  also have "\<dots> = mset (map Inr fits)" using assms(1) by simp
  also have "\<dots> = image_mset (Inr :: 'a \<Rightarrow> 'e + 'a) (mset fits)" by simp
  finally have "image_mset (Inr :: 'a \<Rightarrow> 'e + 'a) (mset fits2) = image_mset Inr (mset fits)" .
  then have "image_mset projr (image_mset (Inr :: 'a \<Rightarrow> 'e + 'a) (mset fits2)) =
      image_mset projr (image_mset (Inr :: 'a \<Rightarrow> 'e + 'a) (mset fits))" by simp
  then show ?thesis by (simp add: multiset.map_comp comp_def)
qed

lemma map_values_permute:
  fixes f :: "'m \<Rightarrow> 'e + 'a"
  assumes "map Inr fits = map f mcas" and "map Inr fits2 = map f (map (\<lambda>i. mcas ! i) p)"
    and "\<forall>i \<in> set p. i < length mcas"
  shows "fits2 = map (\<lambda>i. fits ! i) p"
proof -
  from map_values_nth [OF assms(1)] assms(3)
  have "map f (map (\<lambda>i. mcas ! i) p) = map (Inr :: 'a \<Rightarrow> 'e + 'a) (map (\<lambda>i. fits ! i) p)" by simp
  with assms(2) have "map (Inr :: 'a \<Rightarrow> 'e + 'a) fits2 = map Inr (map (\<lambda>i. fits ! i) p)" by simp
  then show ?thesis by (simp only: inj_map_eq_map [OF inj_Inr])
qed

lemma permuted_values:
  fixes f :: "'m \<Rightarrow> 'e + 'a"
  assumes v: "map Inr fits = map f mcas" and v2: "map Inr fits2 = map f (map (\<lambda>i. mcas ! i) p)"
    and p: "\<forall>i \<in> set p. i < length mcas"
  shows "fits2 = map (\<lambda>i. fits ! i) p \<and> (mset p = mset [0..<length mcas] \<longrightarrow> mset fits2 = mset fits)"
proof -
  from map_values_permute [OF v v2 p] have e: "fits2 = map (\<lambda>i. fits ! i) p" .
  from map_values_nth [OF v] have l: "length fits = length mcas" by simp
  have "mset fits2 = mset fits" if "mset p = mset [0..<length mcas]"
  proof -
    have "mset fits2 = image_mset (\<lambda>i. fits ! i) (mset p)" using e by simp
    also have "\<dots> = image_mset (\<lambda>i. fits ! i) (mset [0..<length fits])" using that l by simp
    also have "\<dots> = mset (map (\<lambda>i. fits ! i) [0..<length fits])" by simp
    also have "\<dots> = mset fits" by (simp only: map_nth)
    finally show ?thesis .
  qed
  with e show ?thesis by blast
qed

text \<open>When a scan returns: the prelude and the axes of every spectrum succeed, and every fit returns.\<close>

lemma grid_value:
  "fst (create_subplot_grid E n r xl yl w) = fst (create_subplot_grid E n r xl yl w')"
  by (simp add: create_subplot_grid_def prog_defs emits_def Let_def split: sum.splits)

lemma pbind_step: "m w = (Inr x, w1) \<Longrightarrow> pbind m f w = f x w1"
  by (simp add: pbind_def)

lemma collect_pure:
  assumes "\<And>x. x \<in> set xs \<Longrightarrow> f x w = (Inr (g x), w)"
  shows "collect f xs w = (Inr (map g xs), w)"
  using assms by (induction xs) (simp_all add: pbind_def ret_def)

lemma scan_limits_returns:
  assumes "mcas \<noteq> []"
    and "\<forall>mca \<in> set mcas. heap w ! counts mca \<noteq> [] \<and> heap w ! channels mca \<noteq> []"
  shows "\<exists>lim. scan_limits mcas w = (Inr lim, w)"
proof -
  have c1: "collect (\<lambda>mca. pbind (deref (counts mca)) (\<lambda>cnts. lift (np_max cnts))) mcas w =
      (Inr (map (\<lambda>mca. Max (set (heap w ! counts mca))) mcas), w)"
    using assms(2) by (intro collect_pure) (simp add: pbind_def deref_def lift_def np_max_def)
  have c2: "collect (\<lambda>mca. pbind (deref (channels mca)) (\<lambda>chans. lift (last_of chans))) mcas w =
      (Inr (map (\<lambda>mca. last (heap w ! channels mca)) mcas), w)"
    using assms(2) by (intro collect_pure) (simp add: pbind_def deref_def lift_def last_of_def)
  have m: "lift (np_max (map f mcas)) w = (Inr (Max (set (map f mcas))), w)" for f :: "MeasMCA \<Rightarrow> real"
    using assms(1) by (simp add: lift_def np_max_def)
  show ?thesis
    by (simp add: scan_limits_def pbind_def c1 c2 m ret_def Let_def)
qed

lemma scan_axes_returns:
  assumes "i < length axes" and "i < length voltages" and "i < length gains"
  shows "\<exists>w1. scan_axes axes voltages gains max_ch mph i mca w = (Inr (axes ! i), w1) \<and> heap w1 = heap w"
  using assms by (simp add: scan_axes_def prog_defs deref_def py_subscript_def Let_def)

lemma collect_returns:
  assumes sv: "\<And>mca ax. mca \<in> set mcas \<Longrightarrow> same_value n (F mca ax) (F mca ax0)"
    and ext: "\<And>mca ax w. take (length (heap w)) (heap (snd (F mca ax w))) = heap w"
    and A: "\<And>i mca w. k \<le> i \<Longrightarrow> i < k + length mcas \<Longrightarrow> \<exists>ax w1. A i mca w = (Inr ax, w1) \<and> heap w1 = heap w"
    and single: "\<And>mca. mca \<in> set mcas \<Longrightarrow> \<exists>y. fst (F mca ax0 w0) = Inr y"
    and n: "n \<le> length (heap w0)"
    and ag: "agree n w0 w"
  shows "\<exists>fits w'. collect (\<lambda>(i, mca). pbind (A i mca) (\<lambda>ax. F mca ax)) (enumerate k mcas) w = (Inr fits, w')"
  using sv A single ag
proof (induction mcas arbitrary: k w)
  case Nil
  then show ?case by (simp add: ret_def)
next
  case (Cons mca mcas)
  from Cons.prems(2) [of k mca w] obtain ax wa where a: "A k mca w = (Inr ax, wa)" and h: "heap wa = heap w"
    by auto
  from Cons.prems(4) h have "agree n w0 wa" by (simp add: agree_def)
  then have awa: "agree n wa w0" by (rule agree_sym)
  have svm: "same_value n (F mca ax) (F mca ax0)" by (rule Cons.prems(1)) simp
  from Cons.prems(3) [of mca] obtain y where y: "fst (F mca ax0 w0) = Inr y" by auto
  from same_valueD [OF svm awa] y
  have val: "fst (F mca ax wa) = Inr y" and a1: "agree n (snd (F mca ax wa)) (snd (F mca ax0 w0))" by simp_all
  obtain w1 where f: "F mca ax wa = (Inr y, w1)" using val by (cases "F mca ax wa") auto
  from agree_extend [OF ext n, of mca ax0] have "agree n w0 (snd (F mca ax0 w0))" .
  from a1 f have "agree n w1 (snd (F mca ax0 w0))" by simp
  from agree_trans [OF \<open>agree n w0 (snd (F mca ax0 w0))\<close> agree_sym [OF this]]
  have ag1: "agree n w0 w1" .
  have "\<exists>fits w'. collect (\<lambda>(i, mca). pbind (A i mca) (\<lambda>ax. F mca ax)) (enumerate (Suc k) mcas) w1 = (Inr fits, w')"
  proof (rule Cons.IH [OF _ _ _ ag1])
    show "same_value n (F m ax') (F m ax0)" if "m \<in> set mcas" for m ax'
      using that by (intro Cons.prems(1)) simp
    show "\<exists>ax w1. A i m v = (Inr ax, w1) \<and> heap w1 = heap v" if "Suc k \<le> i" "i < Suc k + length mcas" for i m v
      using that by (intro Cons.prems(2)) simp_all
    show "\<exists>y. fst (F m ax0 w0) = Inr y" if "m \<in> set mcas" for m
      using that by (intro Cons.prems(3)) simp
  qed
  then obtain ys w2 where
    t: "collect (\<lambda>(i, mca). pbind (A i mca) (\<lambda>ax. F mca ax)) (enumerate (Suc k) mcas) w1 = (Inr ys, w2)"
    by blast
  have b: "pbind (A k mca) (\<lambda>ax. F mca ax) w = (Inr y, w1)"
    by (simp add: pbind_step [of "A k mca" w, OF a] f)
  show ?case
    by (simp add: pbind_step [of "pbind (A k mca) (\<lambda>ax. F mca ax)" w, OF b]
        pbind_step [of "collect (\<lambda>(i, mca). pbind (A i mca) (\<lambda>ax. F mca ax)) (enumerate (Suc k) mcas)" w1, OF t]
        ret_def)
qed

lemma scan_returns:
  assumes sv: "\<And>mca ax. mca \<in> set mcas \<Longrightarrow> same_value (length (heap w)) (F mca ax) (F mca ax0)"
    and ext: "\<And>mca ax w. take (length (heap w)) (heap (snd (F mca ax w))) = heap w"
    and grid: "fst (create_subplot_grid E (length mcas) 1 xl yl w) = Inr (axes, num_plots_x, num_plots_y)"
    and len: "length mcas \<le> length axes" "length mcas \<le> length voltages" "length mcas \<le> length gains"
    and ne: "mcas \<noteq> []"
    and arr: "\<forall>mca \<in> set mcas. heap w ! counts mca \<noteq> [] \<and> heap w ! channels mca \<noteq> []"
    and single: "\<And>mca. mca \<in> set mcas \<Longrightarrow> \<exists>y. fst (F mca ax0 w) = Inr y"
  shows "\<exists>fits w'. pbind (emit ev) (\<lambda>_.
       pbind (create_subplot_grid E (length mcas) 1 xl yl) (\<lambda>(axes, num_plots_x, num_plots_y).
       pbind (pwhen fig_titles (emit ev2)) (\<lambda>_.
       pbind (scan_limits mcas) (\<lambda>(max_ch, max_peak_height_round).
       pbind (collect (\<lambda>(i, mca).
                pbind (scan_axes axes voltages gains max_ch max_peak_height_round i mca) (\<lambda>ax. F mca ax))
              (enumerate 0 mcas)) (\<lambda>fits.
       pbind (emit ev3) (\<lambda>_. ret fits)))))) w = (Inr fits, w')"
proof -
  obtain w1 where s1: "emit ev w = (Inr (), w1)" and h1: "heap w1 = heap w"
    by (simp add: emit_def)
  from grid grid_value [of E "length mcas" 1 xl yl w1 w]
  have "fst (create_subplot_grid E (length mcas) 1 xl yl w1) = Inr (axes, num_plots_x, num_plots_y)" by simp
  then obtain w2 where s2: "create_subplot_grid E (length mcas) 1 xl yl w1 = (Inr (axes, num_plots_x, num_plots_y), w2)"
    by (cases "create_subplot_grid E (length mcas) 1 xl yl w1") auto
  from keeps_heapD [OF kh_create_subplot_grid s2] h1 have h2: "heap w2 = heap w" by simp
  obtain w3 where s3: "pwhen fig_titles (emit ev2) w2 = (Inr (), w3)" and h3: "heap w3 = heap w2"
    by (cases fig_titles) (simp_all add: pwhen_def emit_def ret_def)
  from arr h2 h3 have "\<forall>mca \<in> set mcas. heap w3 ! counts mca \<noteq> [] \<and> heap w3 ! channels mca \<noteq> []" by simp
  from scan_limits_returns [OF ne this] obtain max_ch mph where s4: "scan_limits mcas w3 = (Inr (max_ch, mph), w3)"
    by fastforce
  from h2 h3 have ag: "agree (length (heap w)) w w3" by (simp add: agree_def)
  have "\<exists>fits w'. collect (\<lambda>(i, mca). pbind (scan_axes axes voltages gains max_ch mph i mca) (\<lambda>ax. F mca ax))
      (enumerate 0 mcas) w3 = (Inr fits, w')"
  proof (rule collect_returns [where F=F and ?ax0.0=ax0 and ?w0.0=w, OF sv ext _ single _ ag])
    show "\<exists>ax w1. scan_axes axes voltages gains max_ch mph i mca v = (Inr ax, w1) \<and> heap w1 = heap v"
      if "0 \<le> i" "i < 0 + length mcas" for i mca v
      using scan_axes_returns [of i axes voltages gains max_ch mph mca v] that len by auto
  qed simp_all
  then obtain fits w5 where s5: "collect (\<lambda>(i, mca). pbind (scan_axes axes voltages gains max_ch mph i mca) (\<lambda>ax. F mca ax))
      (enumerate 0 mcas) w3 = (Inr fits, w5)" by blast
  have s6: "emit ev3 w5 = (Inr (), w5\<lparr>trace := trace w5 @ [ev3]\<rparr>)" by (simp add: emit_def)
  show ?thesis
    by (simp add: pbind_step [of "emit ev" w, OF s1]
        pbind_step [of "create_subplot_grid E (length mcas) 1 xl yl" w1, OF s2]
        pbind_step [of "pwhen fig_titles (emit ev2)" w2, OF s3]
        pbind_step [of "scan_limits mcas" w3, OF s4]
        pbind_step [of "collect (\<lambda>(i, mca). pbind (scan_axes axes voltages gains max_ch mph i mca) (\<lambda>ax. F mca ax))
            (enumerate 0 mcas)" w3, OF s5]
        pbind_step [of "emit ev3" w5, OF s6] ret_def)
qed


lemma scan_preparedD:
  assumes "scan_prepared E w mcas voltages gains"
  obtains axes num_plots_x num_plots_y where
    "fst (create_subplot_grid E (length mcas) 1 (Some ''MCA ch.'') (Some ''Count'') w) =
       Inr (axes, num_plots_x, num_plots_y)"
    and "length mcas \<le> length axes" and "length mcas \<le> length voltages" and "length mcas \<le> length gains"
    and "mcas \<noteq> []"
    and "\<forall>mca \<in> set mcas. allocated w mca"
    and "\<forall>mca \<in> set mcas. heap w ! counts mca \<noteq> [] \<and> heap w ! channels mca \<noteq> []"
  using assms by (auto simp: scan_prepared_def list_all_iff split: sum.splits prod.splits)

lemma scan_prepared_permuted:
  assumes sp: "scan_prepared E w mcas voltages gains" and p: "mset p = mset [0..<length mcas]"
    and l: "length mcas \<le> length voltages2" "length mcas \<le> length gains2"
  shows "scan_prepared E w (map (\<lambda>i. mcas ! i) p) voltages2 gains2"
proof -
  from p have "size (mset p) = size (mset [0..<length mcas])" by simp
  then have lp: "length p = length mcas" by simp
  from p have "set_mset (mset p) = set_mset (mset [0..<length mcas])" by simp
  then have sp': "set p = {0..<length mcas}" by simp
  then have "\<forall>i \<in> set p. mcas ! i \<in> set mcas" by simp
  with sp lp l show ?thesis
    by (auto simp: scan_prepared_def list_all_iff split: sum.splits prod.splits)
qed

lemma fit_am_hv_scan_returns:
  assumes sp: "scan_prepared E w mcas voltages gains"
    and single: "\<forall>mca \<in> set mcas. \<exists>fit. fst (fit_am E mca ax THRESHOLD_LEVEL CUT_WIDTH_MULT None vlines w) = Inr fit"
  shows "\<exists>fits w'. fit_am_hv_scan E mcas voltages gains fig_titles vlines w = (Inr fits, w')"
proof -
  from sp obtain axes num_plots_x num_plots_y where
    grid: "fst (create_subplot_grid E (length mcas) 1 (Some ''MCA ch.'') (Some ''Count'') w) =
       Inr (axes, num_plots_x, num_plots_y)"
    and len: "length mcas \<le> length axes" "length mcas \<le> length voltages" "length mcas \<le> length gains"
    and ne: "mcas \<noteq> []"
    and al: "\<forall>mca \<in> set mcas. allocated w mca"
    and arr: "\<forall>mca \<in> set mcas. heap w ! counts mca \<noteq> [] \<and> heap w ! channels mca \<noteq> []"
    by (rule scan_preparedD)
  have "\<exists>fits w'. pbind (emit (Print ''Fitting Am HV scan'')) (\<lambda>_.
       pbind (create_subplot_grid E (length mcas) 1 (Some ''MCA ch.'') (Some ''Count''))
         (\<lambda>(axes, num_plots_x, num_plots_y).
       pbind (pwhen fig_titles (emit (Fig_suptitle ''Am fits''))) (\<lambda>_.
       pbind (scan_limits mcas) (\<lambda>(max_ch, max_peak_height_round).
       pbind (collect (\<lambda>(i, mca).
                pbind (scan_axes axes voltages gains max_ch max_peak_height_round i mca)
                  (\<lambda>ax. fit_am E mca ax THRESHOLD_LEVEL CUT_WIDTH_MULT None vlines))
              (enumerate 0 mcas)) (\<lambda>fits.
       pbind (emit (Save_fig ''am_scan_fits'')) (\<lambda>_. ret fits)))))) w = (Inr fits, w')"
  proof (rule scan_returns [where F="\<lambda>mca ax. fit_am E mca ax THRESHOLD_LEVEL CUT_WIDTH_MULT None vlines"
        and ?ax0.0=ax, OF _ _ grid len ne arr])
    show "same_value (length (heap w)) (fit_am E mca ax' THRESHOLD_LEVEL CUT_WIDTH_MULT None vlines)
          (fit_am E mca ax THRESHOLD_LEVEL CUT_WIDTH_MULT None vlines)" if "mca \<in> set mcas" for mca ax'
      using al that by (intro allocated_sv_fit_am) simp
    show "take (length (heap v)) (heap (snd (fit_am E mca ax' THRESHOLD_LEVEL CUT_WIDTH_MULT None vlines v))) = heap v"
      for mca ax' v by (rule fit_am_extends)
    show "\<exists>y. fst (fit_am E mca ax THRESHOLD_LEVEL CUT_WIDTH_MULT None vlines w) = Inr y" if "mca \<in> set mcas" for mca
      using single that by simp
  qed
  then show ?thesis by (simp add: fit_am_hv_scan_def)
qed

lemma fit_fe_hv_scan_returns:
  assumes sp: "scan_prepared E w mcas voltages gains"
    and single: "\<forall>mca \<in> set mcas. \<exists>fit. fst (fit_fe E mca ax threshold_level cut_width_mult False None vlines w) = Inr fit"
  shows "\<exists>fits w'. fit_fe_hv_scan E mcas voltages gains threshold_level cut_width_mult fig_titles vlines w = (Inr fits, w')"
proof -
  from sp obtain axes num_plots_x num_plots_y where
    grid: "fst (create_subplot_grid E (length mcas) 1 (Some ''MCA ch.'') (Some ''Count'') w) =
       Inr (axes, num_plots_x, num_plots_y)"
    and len: "length mcas \<le> length axes" "length mcas \<le> length voltages" "length mcas \<le> length gains"
    and ne: "mcas \<noteq> []"
    and al: "\<forall>mca \<in> set mcas. allocated w mca"
    and arr: "\<forall>mca \<in> set mcas. heap w ! counts mca \<noteq> [] \<and> heap w ! channels mca \<noteq> []"
    by (rule scan_preparedD)
  have "\<exists>fits w'. pbind (emit (Print ''Fitting Fe HV scan'')) (\<lambda>_.
       pbind (create_subplot_grid E (length mcas) 1 (Some ''MCA ch.'') (Some ''Count''))
         (\<lambda>(axes, num_plots_x, num_plots_y).
       pbind (pwhen fig_titles (emit (Fig_suptitle ''Fe fits''))) (\<lambda>_.
       pbind (scan_limits mcas) (\<lambda>(max_ch, max_peak_height_round).
       pbind (collect (\<lambda>(i, mca).
                pbind (scan_axes axes voltages gains max_ch max_peak_height_round i mca)
                  (\<lambda>ax. fit_fe E mca ax threshold_level cut_width_mult False None vlines))
              (enumerate 0 mcas)) (\<lambda>fits.
       pbind (emit (Save_fig ''fe_scan_fits'')) (\<lambda>_. ret fits)))))) w = (Inr fits, w')"
  proof (rule scan_returns [where F="\<lambda>mca ax. fit_fe E mca ax threshold_level cut_width_mult False None vlines"
        and ?ax0.0=ax, OF _ _ grid len ne arr])
    show "same_value (length (heap w)) (fit_fe E mca ax' threshold_level cut_width_mult False None vlines)
          (fit_fe E mca ax threshold_level cut_width_mult False None vlines)" if "mca \<in> set mcas" for mca ax'
      using al that by (intro allocated_sv_fit_fe) simp
    show "take (length (heap v)) (heap (snd (fit_fe E mca ax' threshold_level cut_width_mult False None vlines v))) = heap v"
      for mca ax' v by (rule fit_fe_extends)
    show "\<exists>y. fst (fit_fe E mca ax threshold_level cut_width_mult False None vlines w) = Inr y" if "mca \<in> set mcas" for mca
      using single that by simp
  qed
  then show ?thesis by (simp add: fit_fe_hv_scan_def)
qed

text \<open>Both directions for a scan whose values are those of the single fits.\<close>
lemma scan_independent:
  fixes scan :: "MeasMCA list \<Rightarrow> real list \<Rightarrow> real list \<Rightarrow> 'a list prog"
    and f :: "MeasMCA \<Rightarrow> exn + 'a"
  assumes vals: "\<And>ms vs gs fits w'. \<forall>mca \<in> set ms. allocated w mca \<Longrightarrow> scan ms vs gs w = (Inr fits, w') \<Longrightarrow>
      map Inr fits = map f ms"
    and rets: "\<And>ms vs gs. scan_prepared E w ms vs gs \<Longrightarrow> \<forall>mca \<in> set ms. \<exists>fit. f mca = Inr fit \<Longrightarrow>
      \<exists>fits w'. scan ms vs gs w = (Inr fits, w')"
    and al: "\<forall>mca \<in> set mcas. allocated w mca"
  shows "(\<forall>fits w'. scan mcas voltages gains w = (Inr fits, w') \<longrightarrow>
            length fits = length mcas \<and>
            (\<forall>i < length mcas. f (mcas ! i) = Inr (fits ! i)) \<and>
            (\<forall>p voltages2 gains2 fits2 w2.
               (\<forall>i \<in> set p. i < length mcas) \<and>
               scan (map (\<lambda>i. mcas ! i) p) voltages2 gains2 w = (Inr fits2, w2) \<longrightarrow>
               fits2 = map (\<lambda>i. fits ! i) p \<and>
               (mset p = mset [0..<length mcas] \<longrightarrow> mset fits2 = mset fits))) \<and>
         (scan_prepared E w mcas voltages gains \<and> (\<forall>mca \<in> set mcas. \<exists>fit. f mca = Inr fit) \<longrightarrow>
            (\<exists>fits w'. scan mcas voltages gains w = (Inr fits, w') \<and>
               length fits = length mcas \<and>
               (\<forall>i < length mcas. f (mcas ! i) = Inr (fits ! i)) \<and>
               (\<forall>p voltages2 gains2.
                  mset p = mset [0..<length mcas] \<and>
                  length mcas \<le> length voltages2 \<and> length mcas \<le> length gains2 \<longrightarrow>
                  (\<exists>fits2 w2. scan (map (\<lambda>i. mcas ! i) p) voltages2 gains2 w = (Inr fits2, w2) \<and>
                     fits2 = map (\<lambda>i. fits ! i) p \<and> mset fits2 = mset fits))))"
proof -
  have alloc2: "\<forall>mca \<in> set (map (\<lambda>i. mcas ! i) p). allocated w mca" if "\<forall>i \<in> set p. i < length mcas" for p
    using al that by auto
  have V: "length fits = length mcas \<and>
            (\<forall>i < length mcas. f (mcas ! i) = Inr (fits ! i)) \<and>
            (\<forall>p voltages2 gains2 fits2 w2.
               (\<forall>i \<in> set p. i < length mcas) \<and>
               scan (map (\<lambda>i. mcas ! i) p) voltages2 gains2 w = (Inr fits2, w2) \<longrightarrow>
               fits2 = map (\<lambda>i. fits ! i) p \<and>
               (mset p = mset [0..<length mcas] \<longrightarrow> mset fits2 = mset fits))"
    if run: "scan mcas voltages gains w = (Inr fits, w')" for fits w'
  proof -
    from vals [OF al run] have v: "map Inr fits = map f mcas" .
    have "fits2 = map (\<lambda>i. fits ! i) p \<and> (mset p = mset [0..<length mcas] \<longrightarrow> mset fits2 = mset fits)"
      if p: "\<forall>i \<in> set p. i < length mcas"
        and run2: "scan (map (\<lambda>i. mcas ! i) p) voltages2 gains2 w = (Inr fits2, w2)"
      for p voltages2 gains2 fits2 w2
    proof -
      from vals [OF alloc2 [OF p] run2] have "map Inr fits2 = map f (map (\<lambda>i. mcas ! i) p)" .
      from permuted_values [OF v this p] show ?thesis .
    qed
    with map_values_nth [OF v] show ?thesis by blast
  qed
  have R: "\<exists>fits w'. scan mcas voltages gains w = (Inr fits, w') \<and>
               length fits = length mcas \<and>
               (\<forall>i < length mcas. f (mcas ! i) = Inr (fits ! i)) \<and>
               (\<forall>p voltages2 gains2.
                  mset p = mset [0..<length mcas] \<and>
                  length mcas \<le> length voltages2 \<and> length mcas \<le> length gains2 \<longrightarrow>
                  (\<exists>fits2 w2. scan (map (\<lambda>i. mcas ! i) p) voltages2 gains2 w = (Inr fits2, w2) \<and>
                     fits2 = map (\<lambda>i. fits ! i) p \<and> mset fits2 = mset fits))"
    if sp: "scan_prepared E w mcas voltages gains" and single: "\<forall>mca \<in> set mcas. \<exists>fit. f mca = Inr fit"
  proof -
    from rets [OF sp single] obtain fits w' where run: "scan mcas voltages gains w = (Inr fits, w')"
      by blast
    note v = V [OF run]
    have "\<exists>fits2 w2. scan (map (\<lambda>i. mcas ! i) p) voltages2 gains2 w = (Inr fits2, w2) \<and>
                     fits2 = map (\<lambda>i. fits ! i) p \<and> mset fits2 = mset fits"
      if p: "mset p = mset [0..<length mcas]"
        and l: "length mcas \<le> length voltages2" "length mcas \<le> length gains2"
      for p voltages2 gains2
    proof -
      from p have "set_mset (mset p) = set_mset (mset [0..<length mcas])" by simp
      then have sp': "set p = {0..<length mcas}" by simp
      then have pr: "\<forall>i \<in> set p. i < length mcas" by simp
      from sp' have mem: "\<forall>mca \<in> set (map (\<lambda>i. mcas ! i) p). mca \<in> set mcas" by simp
      from rets [OF scan_prepared_permuted [OF sp p l]] single mem
      obtain fits2 w2 where run2: "scan (map (\<lambda>i. mcas ! i) p) voltages2 gains2 w = (Inr fits2, w2)"
        by blast
      from v [THEN conjunct2, THEN conjunct2, rule_format, OF conjI [OF pr run2]] p
      have "fits2 = map (\<lambda>i. fits ! i) p \<and> mset fits2 = mset fits" by blast
      with run2 show ?thesis by blast
    qed
    with run v show ?thesis by blast
  qed
  from V R show ?thesis by blast
qed

subsection \<open>Properties of the spectrum fit orchestrators\<close>

text \<open>
  The two cuts of the dual-peak fit.  When \<^verbatim>\<open>fit_fe\<close> (secondary enabled) returns, the
  primary cut is the cut of the whole counts array and the secondary cut is the cut of the
  slice \<^verbatim>\<open>counts[:cut_inds[0] - 10]\<close>; the two Gaussian fits are made on these two cuts, in
  this order.  When the primary cut starts at channel 10 or later, the slice is the part of
  the counts that ends 10 channels before the primary cut, and no index of the secondary cut
  is in the primary cut.
\<close>

lemma fit_fe_cuts:
  assumes "fit_fe E mca ax threshold_level cut_width_mult True subtracted vlines w = (Inr fits, w')"
    and "cnts = heap w ! (case subtracted of Some a \<Rightarrow> a | None \<Rightarrow> counts mca)"
  shows "\<exists>cut_inds tw pidx pk cut_inds2 tw2 pidx2 pk2 y1 p1 s1 later y2 p2 s2.
           get_cut cnts threshold_level cut_width_mult = Inr (cut_inds, tw, pidx, pk) \<and> cut_inds \<noteq> [] \<and>
           get_cut (py_slice_to cnts (hd cut_inds - 10)) threshold_level cut_width_mult =
             Inr (cut_inds2, tw2, pidx2, pk2) \<and>
           trace w' = trace w @ Curve_fit_call (map real_of_int cut_inds) y1 p1 s1 # later \<and>
           Curve_fit_call (map real_of_int cut_inds2) y2 p2 s2 \<in> set later \<and>
           (10 \<le> hd cut_inds \<longrightarrow>
              py_slice_to cnts (hd cut_inds - 10) = take (nat (hd cut_inds - 10)) cnts \<and>
              (\<forall>i \<in> set cut_inds2. 0 \<le> i \<and> i < hd cut_inds - 10 \<and> i \<notin> set cut_inds))"
proof -
  from fit_fe_returns [OF assms] obtain cut_inds tw pidx pk cut_inds2 tw2 pidx2 pk2 y1 p1 s1 later y2 p2 s2
    where g1: "get_cut cnts threshold_level cut_width_mult = Inr (cut_inds, tw, pidx, pk)"
      and ne: "cut_inds \<noteq> []"
      and g2: "get_cut (py_slice_to cnts (hd cut_inds - 10)) threshold_level cut_width_mult =
             Inr (cut_inds2, tw2, pidx2, pk2)"
      and tr: "trace w' = trace w @ Curve_fit_call (map real_of_int cut_inds) y1 p1 s1 # later"
      and c2: "Curve_fit_call (map real_of_int cut_inds2) y2 p2 s2 \<in> set later"
    by blast
  have sep: "py_slice_to cnts (hd cut_inds - 10) = take (nat (hd cut_inds - 10)) cnts \<and>
       (\<forall>i \<in> set cut_inds2. 0 \<le> i \<and> i < hd cut_inds - 10 \<and> i \<notin> set cut_inds)"
    if far: "10 \<le> hd cut_inds"
  proof -
    from far have sl: "py_slice_to cnts (hd cut_inds - 10) = take (nat (hd cut_inds - 10)) cnts"
      by (simp add: py_slice_to_def)
    have "0 \<le> i \<and> i < hd cut_inds - 10 \<and> i \<notin> set cut_inds" if i: "i \<in> set cut_inds2" for i
    proof -
      from get_cut_range [OF g2] i
      have "0 \<le> i" and "i < int (length (py_slice_to cnts (hd cut_inds - 10)))" by auto
      with sl far have lt: "i < hd cut_inds - 10" by simp
      have "i \<notin> set cut_inds"
      proof
        assume "i \<in> set cut_inds"
        from get_cut_hd_le [OF g1 this] lt show False by simp
      qed
      with \<open>0 \<le> i\<close> lt show ?thesis by simp
    qed
    with sl show ?thesis by blast
  qed
  from g1 ne g2 tr c2 sep show ?thesis by blast
qed

text \<open>The spectrum with peaks at channels 20 and 80: the two cuts are disjoint.\<close>

lemma example_fit_fe_cuts:
  "(\<exists>fits w'. fit_fe (example_solvers [[Finite 1]] [[Finite 2]]) example_mca 0 (1 / 2) (17 / 10) True None True
       (example_world example_two_peaks) = (Inr fits, w')) \<and>
   get_cut example_two_peaks (1 / 2) (17 / 10) =
     Inr ([72, 73, 74, 75, 76, 77, 78, 79, 80, 81, 82, 83, 84, 85, 86, 87, 88, 89], 10, 80, 100) \<and>
   get_cut (py_slice_to example_two_peaks 62) (1 / 2) (17 / 10) =
     Inr ([12, 13, 14, 15, 16, 17, 18, 19, 20, 21, 22, 23, 24, 25, 26, 27, 28, 29], 10, 20, 40) \<and>
   set [12, 13, 14, 15, 16, 17, 18, 19, 20, 21, 22, 23, 24, 25, 26, 27, 28, 29] \<inter>
     set [72, 73, 74, 75, 76, 77, 78, 79, 80, 81, 82, 83, 84, 85, 86, 87, 88, 89 :: int] = {}"
proof -
  let ?E = "example_solvers [[Finite 1]] [[Finite 2]]"
  let ?run = "fit_fe ?E example_mca 0 (1 / 2) (17 / 10) True None True (example_world example_two_peaks)"
  let ?c1 = "[72, 73, 74, 75, 76, 77, 78, 79, 80, 81, 82, 83, 84, 85, 86, 87, 88, 89 :: int]"
  let ?c2 = "[12, 13, 14, 15, 16, 17, 18, 19, 20, 21, 22, 23, 24, 25, 26, 27, 28, 29 :: int]"
  have h1: "?run = (Inr (Two_fits ([101, 81, 5], [[Finite 2]]) ([41, 21, 5], [[Finite 2]])), snd ?run)"
    using example_fit_fe by (simp add: prod_eq_iff)
  have h2: "example_two_peaks =
      heap (example_world example_two_peaks) ! (case None of Some a \<Rightarrow> a | None \<Rightarrow> counts example_mca)"
    by (simp add: example_world_def example_mca_def)
  from fit_fe_cuts [OF h1 h2] obtain cut_inds tw pidx pk cut_inds2 tw2 pidx2 pk2
    where g1: "get_cut example_two_peaks (1 / 2) (17 / 10) = Inr (cut_inds, tw, pidx, pk)"
      and g2: "get_cut (py_slice_to example_two_peaks (hd cut_inds - 10)) (1 / 2) (17 / 10) =
             Inr (cut_inds2, tw2, pidx2, pk2)"
      and sep: "10 \<le> hd cut_inds \<longrightarrow> (\<forall>i \<in> set cut_inds2. 0 \<le> i \<and> i < hd cut_inds - 10 \<and> i \<notin> set cut_inds)"
    by blast
  from g1 primary_cut have c1: "cut_inds = ?c1" by simp
  with g2 secondary_cut have c2: "cut_inds2 = ?c2" by simp
  from sep c1 c2 have "\<forall>i \<in> set ?c2. i \<notin> set ?c1" by simp
  then have "set ?c2 \<inter> set ?c1 = {}" by blast
  with h1 primary_cut secondary_cut show ?thesis by blast
qed

text \<open>
  The primary cut of the spectrum with peaks at channels 1 and 12 starts at channel 9, so the
  bound of the slice is \<open>- 1\<close>.
\<close>

lemma close_primary_cut:
  "get_cut example_close_peaks (1 / 2) (17 / 10) = Inr ([9, 10, 11, 12, 13, 14, 15], 4, 12, 10)"
  by (simp add: example_close_peaks_def get_cut_eval)

lemma close_secondary_cut:
  "get_cut (py_slice_to example_close_peaks (9 - 10)) (1 / 2) (17 / 10) =
     Inr ([9, 10, 11, 12, 13, 14, 15], 4, 12, 10)"
  by (simp add: example_close_peaks_def py_slice_to_def get_cut_eval)

text \<open>
  Claim C6.  The secondary cut is the cut of the slice \<^verbatim>\<open>counts[:cut_inds[0] - 10]\<close>, and
  this slice lies to the left of the primary cut only when the primary cut starts at channel
  10 or later.  When it starts earlier the bound is negative, Python counts it from the end
  of the array, and the slice holds the primary peak.  For the spectrum of 20 channels with
  peaks at channels 1 and 12, which are 11 channels apart, the primary cut is the channels 9
  to 15, the slice \<^verbatim>\<open>counts[:-1]\<close> is the counts without the last channel, the secondary cut
  is the channels 9 to 15 again, and \<^verbatim>\<open>fit_fe\<close> fits the primary peak twice: the two cuts
  are equal, and the peak at channel 1 is never fitted.
\<close>

theorem fit_fe_secondary_overlap:
  "get_cut example_close_peaks (1 / 2) (17 / 10) = Inr ([9, 10, 11, 12, 13, 14, 15], 4, 12, 10) \<and>
   py_slice_to example_close_peaks (9 - 10) = butlast example_close_peaks \<and>
   get_cut (py_slice_to example_close_peaks (9 - 10)) (1 / 2) (17 / 10) =
     Inr ([9, 10, 11, 12, 13, 14, 15], 4, 12, 10) \<and>
   fit_fe (example_solvers [[Finite 1]] [[Finite 2]]) example_mca 0 (1 / 2) (17 / 10) True None True
      (example_world example_close_peaks) =
   (Inr (Two_fits ([11, 13, 13 / 5], [[Finite 2]]) ([11, 13, 13 / 5], [[Finite 2]])),
    \<lparr>heap = [[1, 4, 1, 0, 0, 0, 0, 0, 1, 3, 6, 9, 10, 9, 6, 3, 1, 0, 0, 0],
             [0, 1, 2, 3, 4, 5, 6, 7, 8, 9, 10, 11, 12, 13, 14, 15, 16, 17, 18, 19],
             [1 / 100], [1 / 50]],
     trace =
       [Curve_fit_call [9, 10, 11, 12, 13, 14, 15] [3, 6, 9, 10, 9, 6, 3] (Some [10, 12, 8 / 5])
          (Some [3 / 50, 3 / 25, 9 / 50, 1 / 5, 9 / 50, 3 / 25, 3 / 50]),
        Odr_run_call [9, 10, 11, 12, 13, 14, 15] [3, 6, 9, 10, 9, 6, 3] (Some [1 / 100])
          (Some [3 / 50, 3 / 25, 9 / 50, 1 / 5, 9 / 50, 3 / 25, 3 / 50]) [10, 12, 8 / 5],
        Ax_vlines 0 9 15 10,
        Curve_fit_call [9, 10, 11, 12, 13, 14, 15] [3, 6, 9, 10, 9, 6, 3] (Some [10, 12, 8 / 5])
          (Some [3 / 50, 3 / 25, 9 / 50, 1 / 5, 9 / 50, 3 / 25, 3 / 50]),
        Odr_run_call [9, 10, 11, 12, 13, 14, 15] [3, 6, 9, 10, 9, 6, 3] (Some [1 / 100])
          (Some [3 / 50, 3 / 25, 9 / 50, 1 / 5, 9 / 50, 3 / 25, 3 / 50]) [10, 12, 8 / 5],
        Ax_plot 0 (Some [0, 1, 2, 3, 4, 5, 6, 7, 8, 9, 10, 11, 12, 13, 14, 15, 16, 17, 18, 19])
          [0, 0, 0, 0, 0, 0, 0, 0, 0, 0, 0, 0, 0, 0, 0, 0, 0, 0, 0, 0]]\<rparr>)"
proof -
  have s: "py_slice_to example_close_peaks (9 - 10) = butlast example_close_peaks"
    by (simp add: example_close_peaks_def py_slice_to_def)
  have f: "fancy_index example_close_peaks [9, 10, 11, 12, 13, 14, 15] = Inr [3, 6, 9, 10, 9, 6, 3]"
    by (simp add: example_close_peaks_def py_subscript_def)
  have l: "map real [0..<length example_close_peaks] =
      [0, 1, 2, 3, 4, 5, 6, 7, 8, 9, 10, 11, 12, 13, 14, 15, 16, 17, 18, 19]"
    by (simp add: example_close_peaks_def upt_conv_Cons)
  have r: "fit_fe (example_solvers [[Finite 1]] [[Finite 2]]) example_mca 0 (1 / 2) (17 / 10) True None True
      (example_world example_close_peaks) =
   (Inr (Two_fits ([11, 13, 13 / 5], [[Finite 2]]) ([11, 13, 13 / 5], [[Finite 2]])),
    \<lparr>heap = [example_close_peaks,
             [0, 1, 2, 3, 4, 5, 6, 7, 8, 9, 10, 11, 12, 13, 14, 15, 16, 17, 18, 19],
             [1 / 100], [1 / 50]],
     trace =
       [Curve_fit_call [9, 10, 11, 12, 13, 14, 15] [3, 6, 9, 10, 9, 6, 3] (Some [10, 12, 8 / 5])
          (Some [3 / 50, 3 / 25, 9 / 50, 1 / 5, 9 / 50, 3 / 25, 3 / 50]),
        Odr_run_call [9, 10, 11, 12, 13, 14, 15] [3, 6, 9, 10, 9, 6, 3] (Some [1 / 100])
          (Some [3 / 50, 3 / 25, 9 / 50, 1 / 5, 9 / 50, 3 / 25, 3 / 50]) [10, 12, 8 / 5],
        Ax_vlines 0 9 15 10,
        Curve_fit_call [9, 10, 11, 12, 13, 14, 15] [3, 6, 9, 10, 9, 6, 3] (Some [10, 12, 8 / 5])
          (Some [3 / 50, 3 / 25, 9 / 50, 1 / 5, 9 / 50, 3 / 25, 3 / 50]),
        Odr_run_call [9, 10, 11, 12, 13, 14, 15] [3, 6, 9, 10, 9, 6, 3] (Some [1 / 100])
          (Some [3 / 50, 3 / 25, 9 / 50, 1 / 5, 9 / 50, 3 / 25, 3 / 50]) [10, 12, 8 / 5],
        Ax_plot 0 (Some [0, 1, 2, 3, 4, 5, 6, 7, 8, 9, 10, 11, 12, 13, 14, 15, 16, 17, 18, 19])
          [0, 0, 0, 0, 0, 0, 0, 0, 0, 0, 0, 0, 0, 0, 0, 0, 0, 0, 0, 0]]\<rparr>)"
    using close_secondary_cut
    by (simp add: fit_fe_def prog_defs deref_def draw_cut_def first_of_def last_of_def
        example_world_def example_mca_def close_primary_cut f l
        fit_mca_gaussian_def fit_odr_def np_mul_def example_solvers_def gaussian_curve_def
        np_any_def np_any_isinf_def truthy_def np_isinf_def del: fancy_index.simps)
  from close_primary_cut s close_secondary_cut r show ?thesis
    by (simp add: example_close_peaks_def)
qed

text \<open>
  Claim C10.  No fit writes to an array of its caller.  After \<^verbatim>\<open>fit_am\<close> every array that
  existed before the call (the counts, the channel labels, the nonlinearity arrays, a
  \<^verbatim>\<open>subtracted\<close> array) has the contents it had, and the store has grown by new arrays only;
  after \<^verbatim>\<open>fit_fe\<close> and \<^verbatim>\<open>fit_manual\<close> the store is what it was.  When \<^verbatim>\<open>fit_am\<close>
  returns, the one new array is the copy of the counts with the channels below the threshold
  midpoint set to zero, the cut is the cut of that copy, and the Gaussian fit is called with
  the values of the original counts at the indices of the cut.
\<close>

theorem fits_do_not_mutate:
  assumes "counts_ref = (case subtracted of Some a \<Rightarrow> a | None \<Rightarrow> counts mca)"
    and "counts_ref < length (heap w)"
  shows "take (length (heap w))
           (heap (snd (fit_am E mca ax threshold_level cut_width_mult subtracted vlines w))) = heap w \<and>
         heap (snd (fit_fe E mca ax threshold_level cut_width_mult secondary subtracted vlines w)) = heap w \<and>
         heap (snd (fit_manual E mca ax min_ind max_ind subtracted vlines w)) = heap w \<and>
         (\<forall>fit w'. fit_am E mca ax threshold_level cut_width_mult subtracted vlines w = (Inr fit, w') \<longrightarrow>
            (\<exists>above half_ind filtered cut_inds threshold_width peak_ind peak windowed std_y rest.
               above = np_where_gt (heap w ! counts_ref) (mul64 threshold_level (Max (set (heap w ! counts_ref)))) \<and>
               half_ind = (hd above + last above) div 2 \<and>
               filtered = replicate (min half_ind (length (heap w ! counts_ref))) 0 @
                            drop half_ind (heap w ! counts_ref) \<and>
               heap w' = heap w @ [filtered] \<and>
               get_cut filtered threshold_level cut_width_mult =
                 Inr (cut_inds, threshold_width, peak_ind, peak) \<and>
               windowed = map (\<lambda>i. (heap w ! counts_ref) ! nat i) cut_inds \<and>
               trace w' = trace w @
                 (if vlines then [Ax_vlines ax (hd cut_inds) (last cut_inds) peak] else []) @
                 Curve_fit_call (map real_of_int cut_inds) windowed
                   (Some [peak, real_of_int peak_ind, 0.4 * real_of_int threshold_width]) (Some std_y) # rest))"
proof -
  from fit_am_heap [of E mca ax threshold_level cut_width_mult subtracted vlines w]
  have a: "take (length (heap w))
           (heap (snd (fit_am E mca ax threshold_level cut_width_mult subtracted vlines w))) = heap w"
    by auto
  have d: "\<exists>above half_ind filtered cut_inds threshold_width peak_ind peak windowed std_y rest.
               above = np_where_gt (heap w ! counts_ref) (mul64 threshold_level (Max (set (heap w ! counts_ref)))) \<and>
               half_ind = (hd above + last above) div 2 \<and>
               filtered = replicate (min half_ind (length (heap w ! counts_ref))) 0 @
                            drop half_ind (heap w ! counts_ref) \<and>
               heap w' = heap w @ [filtered] \<and>
               get_cut filtered threshold_level cut_width_mult =
                 Inr (cut_inds, threshold_width, peak_ind, peak) \<and>
               windowed = map (\<lambda>i. (heap w ! counts_ref) ! nat i) cut_inds \<and>
               trace w' = trace w @
                 (if vlines then [Ax_vlines ax (hd cut_inds) (last cut_inds) peak] else []) @
                 Curve_fit_call (map real_of_int cut_inds) windowed
                   (Some [peak, real_of_int peak_ind, 0.4 * real_of_int threshold_width]) (Some std_y) # rest"
    if run: "fit_am E mca ax threshold_level cut_width_mult subtracted vlines w = (Inr fit, w')" for fit w'
  proof -
    from fit_am_returns [OF run assms]
    obtain above half_ind filtered cut_inds threshold_width peak_ind peak windowed std_y rest where
      r: "np_where_gt (heap w ! counts_ref) (mul64 threshold_level (Max (set (heap w ! counts_ref)))) = above"
         "half_ind = (hd above + last above) div 2"
         "filtered = replicate (min half_ind (length (heap w ! counts_ref))) 0 @ drop half_ind (heap w ! counts_ref)"
         "heap w' = heap w @ [filtered]"
         "get_cut filtered threshold_level cut_width_mult = Inr (cut_inds, threshold_width, peak_ind, peak)"
         "fancy_index (heap w ! counts_ref) cut_inds = Inr windowed"
         "trace w' = trace w @ (if vlines then [Ax_vlines ax (hd cut_inds) (last cut_inds) peak] else []) @
             Curve_fit_call (map real_of_int cut_inds) windowed
               (Some [peak, real_of_int peak_ind, 0.4 * real_of_int threshold_width]) (Some std_y) # rest"
      by blast
    from get_cut_range [OF r(5)] have nn: "\<forall>i \<in> set cut_inds. 0 \<le> i" by auto
    from fancy_index_Inr [OF r(6)] nn
    have "windowed = map (\<lambda>i. (heap w ! counts_ref) ! nat i) cut_inds" by fastforce
    with r show ?thesis by blast
  qed
  from a d fit_fe_heap [of E mca ax threshold_level cut_width_mult secondary subtracted vlines w]
    fit_manual_heap [of E mca ax min_ind max_ind subtracted vlines w]
  show ?thesis by blast
qed

theorem fits_do_not_mutate_witness:
  "0 = (case None of Some a \<Rightarrow> a | None \<Rightarrow> counts example_mca) \<and>
   0 < length (heap (example_world [0, 1, 3, 1, 0, 2, 6, 10, 6, 2, 0])) \<and>
   (\<exists>fit w'. fit_am (example_solvers [[Finite 1]] [[Finite 2]]) example_mca 0 (1 / 2) (17 / 10) None True
       (example_world [0, 1, 3, 1, 0, 2, 6, 10, 6, 2, 0]) = (Inr fit, w') \<and>
       take 4 (heap w') = heap (example_world [0, 1, 3, 1, 0, 2, 6, 10, 6, 2, 0]) \<and>
       heap w' = heap (example_world [0, 1, 3, 1, 0, 2, 6, 10, 6, 2, 0]) @ [[0, 0, 0, 0, 0, 0, 0, 10, 6, 2, 0]] \<and>
       (\<exists>rest. trace w' = Ax_vlines 0 7 9 10 #
          Curve_fit_call [7, 8, 9] [10, 6, 2] (Some [10, 7, 2 / 5]) (Some [1 / 5, 3 / 25, 1 / 25]) # rest))"
proof -
  let ?E = "example_solvers [[Finite 1]] [[Finite 2]]"
  let ?w = "example_world [0, 1, 3, 1, 0, 2, 6, 10, 6, 2, 0]"
  have h1: "0 = (case None of Some a \<Rightarrow> a | None \<Rightarrow> counts example_mca)"
    by (simp add: example_mca_def)
  have h2: "0 < length (heap ?w)" by (simp add: example_world_def)
  note t = fits_do_not_mutate [OF h1 h2, of ?E ax "1 / 2" "17 / 10" True False 0 0 for ax]
  from t [of 0] example_fit_am
  have "take 4 (heap (snd (fit_am ?E example_mca 0 (1 / 2) (17 / 10) None True ?w))) = heap ?w"
    by (simp add: example_world_def)
  with example_fit_am h1 h2 show ?thesis by (simp add: example_world_def)
qed

subsection \<open>The example scans\<close>

lemmas eval_defs = fit_am_hv_scan_def fit_fe_hv_scan_def create_subplot_grid_def scan_limits_def scan_axes_def
  prog_defs emits_def deref_def np_copy_def assign_prefix_def first_of_def last_of_def py_subscript_def
  py_slice_to_def gaussian_curve_def draw_cut_def fit_am_def fit_fe_def
  fit_mca_gaussian_def fit_odr_def np_mul_def get_cut_def np_argmax_def np_max_def np_where_gt_def
  exceeds_def mul64_values np_arange_rec py_round_def py_int_def flatten_axes_def label_axes_def example_solvers_def
  THRESHOLD_LEVEL_def CUT_WIDTH_MULT_def np_any_def np_any_isinf_def truthy_def np_isinf_def
  func_odr_def enumerate_eq_zip Let_def upt_conv_Cons
  example_scan_world_def example_mca_def example_mca2_def example_mca_unconfigured_def

lemma example_am_scan:
  "fst (fit_am_hv_scan (example_solvers [[Finite 1]] [[Finite 2]])
     [example_mca, example_mca2, example_mca2, example_mca] [1, 2, 3, 4] [5, 6, 7, 8] True True
     example_scan_world) =
   Inr [([11, 8, 7 / 5], [[Finite 2]]), ([8, 3, 1], [[Finite 2]]),
        ([8, 3, 1], [[Finite 2]]), ([11, 8, 7 / 5], [[Finite 2]])]"
  by (simp add: eval_defs)

lemma example_am_scan_permuted:
  "fst (fit_am_hv_scan (example_solvers [[Finite 1]] [[Finite 2]])
     [example_mca2, example_mca, example_mca, example_mca2] [2, 1, 4, 3] [6, 5, 8, 7] True True
     example_scan_world) =
   Inr [([8, 3, 1], [[Finite 2]]), ([11, 8, 7 / 5], [[Finite 2]]),
        ([11, 8, 7 / 5], [[Finite 2]]), ([8, 3, 1], [[Finite 2]])]"
  by (simp add: eval_defs)

lemma example_fe_scan:
  "fst (fit_fe_hv_scan (example_solvers [[Finite 1]] [[Finite 2]])
     [example_mca, example_mca2, example_mca2, example_mca] [1, 2, 3, 4] [5, 6, 7, 8] (1 / 2) (17 / 10) True True
     example_scan_world) =
   Inr [One_fit ([11, 8, 9 / 5], [[Finite 2]]), One_fit ([8, 3, 1], [[Finite 2]]),
        One_fit ([8, 3, 1], [[Finite 2]]), One_fit ([11, 8, 9 / 5], [[Finite 2]])]"
  by (simp add: eval_defs)

lemma example_fe_scan_permuted:
  "fst (fit_fe_hv_scan (example_solvers [[Finite 1]] [[Finite 2]])
     [example_mca2, example_mca, example_mca, example_mca2] [2, 1, 4, 3] [6, 5, 8, 7] (1 / 2) (17 / 10) True True
     example_scan_world) =
   Inr [One_fit ([8, 3, 1], [[Finite 2]]), One_fit ([11, 8, 9 / 5], [[Finite 2]]),
        One_fit ([11, 8, 9 / 5], [[Finite 2]]), One_fit ([8, 3, 1], [[Finite 2]])]"
  by (simp add: eval_defs)

lemma fst_run: "fst r = Inr x \<Longrightarrow> r = (Inr x, snd r)"
  by (simp add: prod_eq_iff)

subsection \<open>Properties of the batch orchestrators\<close>




end
